theory Spec2Isabelle
  imports Complex_Main "HOL-Library.Multiset"
begin

section \<open>JavaScript values used by the gateway\<close>

text \<open>
  JSON documents as the handlers and workers build them. An object keeps its members in
  insertion order, as a JavaScript object does, because \<open>JSON.stringify\<close> writes them in
  that order. Numbers are the integers the gateway handles (amounts in minor units, unix
  seconds, counters); fractional numbers are not modelled.
\<close>

datatype json =
    JNull
  | JBool bool
  | JNum int
  | JStr string
  | JArr "json list"
  | JObj "(string \<times> json) list"

definition digit_char :: "nat \<Rightarrow> char" where
  "digit_char n = ''0123456789abcdef'' ! n"

function nat_digits :: "nat \<Rightarrow> string" where
  "nat_digits n =
     (if n < 10 then [digit_char n] else nat_digits (n div 10) @ [digit_char (n mod 10)])"
  by pat_completeness auto
termination
  by (relation "measure id") auto

declare nat_digits.simps [simp del]

definition int_text :: "int \<Rightarrow> string" where
  "int_text i = (if i < 0 then CHR ''-'' # nat_digits (nat (- i)) else nat_digits (nat i))"

text \<open>
  \<open>JSON.stringify\<close> on a string: the quotation mark and the backslash are escaped, the
  control characters below U+0020 are written with their short escape or as \<open>\u00XX\<close>,
  every other character is copied.
\<close>

definition escape_char :: "char \<Rightarrow> string" where
  "escape_char c =
     (let n = (of_char c :: nat) in
      if n = 34 then [CHR 0x5C, CHR 0x22]
      else if n = 92 then [CHR 0x5C, CHR 0x5C]
      else if n = 8 then [CHR 0x5C, CHR ''b'']
      else if n = 9 then [CHR 0x5C, CHR ''t'']
      else if n = 10 then [CHR 0x5C, CHR ''n'']
      else if n = 12 then [CHR 0x5C, CHR ''f'']
      else if n = 13 then [CHR 0x5C, CHR ''r'']
      else if n < 32 then [CHR 0x5C, CHR ''u'', CHR ''0'', CHR ''0'', digit_char (n div 16),
                         digit_char (n mod 16)]
      else [c])"

definition quote :: "string \<Rightarrow> string" where
  "quote s = [CHR 0x22] @ concat (map escape_char s) @ [CHR 0x22]"

fun join_with :: "'a list \<Rightarrow> 'a list list \<Rightarrow> 'a list" where
  "join_with sep [] = []"
| "join_with sep [x] = x"
| "join_with sep (x # y # ys) = x @ sep @ join_with sep (y # ys)"

fun JSON_stringify :: "json \<Rightarrow> string" where
  "JSON_stringify JNull = ''null''"
| "JSON_stringify (JBool b) = (if b then ''true'' else ''false'')"
| "JSON_stringify (JNum i) = int_text i"
| "JSON_stringify (JStr s) = quote s"
| "JSON_stringify (JArr xs) = ''['' @ join_with '','' (map JSON_stringify xs) @ '']''"
| "JSON_stringify (JObj kvs) =
     ''{'' @ join_with '','' (map (\<lambda>kv. quote (fst kv) @ '':'' @ JSON_stringify (snd kv)) kvs) @ ''}''"

text \<open>
  A JavaScript number is a double. An integer that is not one (it needs more than 53
  significant bits) is replaced by the nearest double, ties to the even significand, when
  it is parsed or is the result of an operation. \<open>nearest_double\<close> is that rounding on
  the naturals below \<open>2 ^ 1024\<close>, \<open>to_double\<close> on the integers.
\<close>

function bit_length :: "nat \<Rightarrow> nat" where
  "bit_length n = (if n = 0 then 0 else bit_length (n div 2) + 1)"
  by pat_completeness auto
termination
  by (relation "measure id") auto

declare bit_length.simps [simp del]

definition nearest_double :: "nat \<Rightarrow> nat" where
  "nearest_double n =
     (let e = bit_length n - 53;
          q = n div 2 ^ e;
          r = n mod 2 ^ e
      in if 2 ^ e < 2 * r \<or> (2 * r = 2 ^ e \<and> odd q) then (q + 1) * 2 ^ e else q * 2 ^ e)"

definition to_double :: "int \<Rightarrow> int" where
  "to_double i = (if i < 0 then - int (nearest_double (nat (- i))) else int (nearest_double (nat i)))"

text \<open>
  JavaScript truthiness of a nullable string (\<open>if (x)\<close>, \<open>!x\<close>): \<open>null\<close>, \<open>undefined\<close>
  and the empty string are falsy.
\<close>

definition truthy :: "string option \<Rightarrow> bool" where
  "truthy x = (case x of None \<Rightarrow> False | Some s \<Rightarrow> s \<noteq> [])"

section \<open>Rows of the relational store (\<open>init.sql\<close>)\<close>

text \<open>
  One record per table. Identifiers (\<open>UUID\<close>, \<open>VARCHAR\<close>) and status columns are strings,
  \<open>INTEGER\<close> columns are integers, a nullable column is an option. A timestamp that is
  only stored and echoed is the ISO text the code wrote; a timestamp the code computes
  with (\<open>expires_at\<close>, \<open>next_retry_at\<close>) is the instant in milliseconds.
\<close>

record merchant =
  mer_id :: string
  mer_name :: string
  mer_email :: string
  mer_api_key :: string
  mer_api_secret :: string
  mer_webhook_url :: "string option"
  mer_webhook_secret :: "string option"

record order =
  ord_id :: string
  ord_merchant_id :: string
  ord_amount :: int
  ord_currency :: string
  ord_receipt :: "string option"
  ord_status :: string
  ord_created_at :: string

record payment =
  pay_id :: string
  pay_order_id :: string
  pay_merchant_id :: string
  pay_amount :: int
  pay_currency :: string
  pay_method :: string
  pay_vpa :: "string option"
  pay_card_last4 :: "string option"
  pay_card_network :: "string option"
  pay_status :: string
  pay_captured :: bool
  pay_error_code :: "string option"
  pay_error_description :: "string option"
  pay_created_at :: string
  pay_updated_at :: string

record refund =
  rfnd_id :: string
  rfnd_payment_id :: string
  rfnd_merchant_id :: string
  rfnd_amount :: int
  rfnd_reason :: "string option"
  rfnd_status :: string
  rfnd_created_at :: string
  rfnd_processed_at :: "string option"

record webhook_log =
  wl_id :: string
  wl_merchant_id :: string
  wl_event :: string
  wl_payload :: json
  wl_status :: string
  wl_attempts :: int
  wl_last_attempt_at :: "string option"
  wl_next_retry_at :: "int option"
  wl_response_code :: "int option"
  wl_response_body :: "string option"
  wl_created_at :: string

record idempotency_key =
  idem_key :: string
  idem_merchant_id :: string
  idem_response :: json
  idem_expires_at :: int

section \<open>Queues and the state shared by the API and the workers\<close>

text \<open>
  A job of the \<open>webhook-delivery\<close> queue: the job data and the \<open>delay\<close> option it was
  added with (0 when the option is omitted). Jobs of the other two queues carry one id.
\<close>

record webhook_job =
  job_webhookLogId :: "string option"
  job_merchantId :: string
  job_event :: string
  job_payload :: json
  job_delay :: int

record world =
  merchants :: "merchant list"
  orders :: "order list"
  payments :: "payment list"
  refunds :: "refund list"
  webhook_logs :: "webhook_log list"
  idempotency_keys :: "idempotency_key list"
  paymentQueue :: "string list"
  refundQueue :: "string list"
  webhookQueue :: "webhook_job list"

text \<open>The environment variables read by \<open>worker.js\<close>.\<close>

record config =
  TEST_MODE :: bool
  TEST_PAYMENT_SUCCESS :: bool
  WEBHOOK_RETRY_INTERVALS_TEST :: bool

text \<open>How a worker's job function ends: it returns, or it throws and the queue fails the job.\<close>

datatype job_result = Returned | Thrown

section \<open>\<open>worker.js\<close>: fan-out and the payment worker\<close>

text \<open>
  \<open>enqueueWebhook(merchantId, event, data)\<close>: wraps the data with the event tag and the
  unix time in seconds and adds a delivery job with no log id and no delay.
\<close>

definition enqueueWebhook :: "int \<Rightarrow> string \<Rightarrow> string \<Rightarrow> json \<Rightarrow> world \<Rightarrow> world" where
  "enqueueWebhook now_ms merchantId event data w =
     w\<lparr>webhookQueue := webhookQueue w @
        [\<lparr>job_webhookLogId = None, job_merchantId = merchantId, job_event = event,
          job_payload = JObj [(''event'', JStr event), (''timestamp'', JNum (now_ms div 1000)),
                              (''data'', data)],
          job_delay = 0\<rparr>]\<rparr>"

text \<open>
  The row set of
  \<open>SELECT p.*, m.webhook_url, m.webhook_secret FROM payments p JOIN merchants m
    ON p.merchant_id = m.id WHERE p.id = $1\<close>.
\<close>

definition payment_with_merchant :: "world \<Rightarrow> string \<Rightarrow> (payment \<times> merchant) list" where
  "payment_with_merchant w paymentId =
     concat (map (\<lambda>p. map (\<lambda>m. (p, m))
                          (filter (\<lambda>m. pay_merchant_id p = mer_id m) (merchants w)))
                 (filter (\<lambda>p. pay_id p = paymentId) (payments w)))"

text \<open>
  \<open>UPDATE payments SET status = 'success', updated_at = $1 WHERE id = $2\<close> and its
  sibling for \<open>'failed'\<close>. Neither statement looks at the row's current status.
\<close>

definition mark_success :: "string \<Rightarrow> string \<Rightarrow> payment list \<Rightarrow> payment list" where
  "mark_success now paymentId ps =
     map (\<lambda>p. if pay_id p = paymentId
               then p\<lparr>pay_status := ''success'', pay_updated_at := now\<rparr> else p) ps"

definition mark_failed :: "string \<Rightarrow> string \<Rightarrow> payment list \<Rightarrow> payment list" where
  "mark_failed now paymentId ps =
     map (\<lambda>p. if pay_id p = paymentId
               then p\<lparr>pay_status := ''failed'', pay_error_code := Some ''PAYMENT_FAILED'',
                      pay_error_description := Some ''Payment processing failed'',
                      pay_updated_at := now\<rparr>
               else p) ps"

definition success_payload :: "payment \<Rightarrow> json" where
  "success_payload p =
     JObj [(''payment'', JObj (
        [(''id'', JStr (pay_id p)), (''order_id'', JStr (pay_order_id p)),
         (''amount'', JNum (pay_amount p)), (''currency'', JStr (pay_currency p)),
         (''method'', JStr (pay_method p))]
        @ (if truthy (pay_vpa p) then [(''vpa'', JStr (the (pay_vpa p)))] else [])
        @ [(''status'', JStr ''success''), (''created_at'', JStr (pay_created_at p))]))]"

definition failed_payload :: "payment \<Rightarrow> json" where
  "failed_payload p =
     JObj [(''payment'', JObj
        [(''id'', JStr (pay_id p)), (''order_id'', JStr (pay_order_id p)),
         (''amount'', JNum (pay_amount p)), (''currency'', JStr (pay_currency p)),
         (''method'', JStr (pay_method p)), (''status'', JStr ''failed''),
         (''error_code'', JStr ''PAYMENT_FAILED''),
         (''error_description'', JStr ''Payment processing failed''),
         (''created_at'', JStr (pay_created_at p))])]"

text \<open>
  The decision of step 3: forced by \<open>TEST_PAYMENT_SUCCESS\<close> in test mode, else the draw
  \<open>Math.random()\<close> (the argument \<open>rnd\<close>) against 0.9 for UPI and 0.95 otherwise.
\<close>

definition isSuccess :: "config \<Rightarrow> real \<Rightarrow> payment \<Rightarrow> bool" where
  "isSuccess cfg rnd p =
     (if TEST_MODE cfg then TEST_PAYMENT_SUCCESS cfg
      else rnd < (if pay_method p = ''upi'' then 9 / 10 else 95 / 100))"

text \<open>
  The job function of the \<open>payment-processing\<close> worker. Its inputs beside the job's
  \<open>paymentId\<close> are what it reads from outside: the configuration, the random draw, the
  clock as ISO text (\<open>now\<close>) and in milliseconds (\<open>now_ms\<close>, read when the webhook is
  fanned out). The sleep changes no state. A failure of the store or of the queue is not
  an input of this model, so the function always returns.
\<close>

definition paymentWorker ::
  "config \<Rightarrow> real \<Rightarrow> string \<Rightarrow> int \<Rightarrow> string \<Rightarrow> world \<Rightarrow> job_result \<times> world" where
  "paymentWorker cfg rnd now now_ms paymentId w =
     (case payment_with_merchant w paymentId of
        [] \<Rightarrow> (Returned, w)
      | (p, m) # _ \<Rightarrow>
          if isSuccess cfg rnd p then
            (let w1 = w\<lparr>payments := mark_success now paymentId (payments w)\<rparr> in
             (Returned,
              if truthy (mer_webhook_url m)
              then enqueueWebhook now_ms (pay_merchant_id p) ''payment.success'' (success_payload p) w1
              else w1))
          else
            (let w1 = w\<lparr>payments := mark_failed now paymentId (payments w)\<rparr> in
             (Returned,
              if truthy (mer_webhook_url m)
              then enqueueWebhook now_ms (pay_merchant_id p) ''payment.failed'' (failed_payload p) w1
              else w1)))"

section \<open>The store's \<open>JSONB\<close> columns\<close>

text \<open>
  \<open>webhook_logs.payload\<close> and \<open>idempotency_keys.response\<close> are \<open>JSONB\<close> columns. The code
  writes \<open>JSON.stringify(x)\<close> into them and reads back the parsed value. PostgreSQL keeps a
  \<open>JSONB\<close> object without the order of its members: it stores them sorted by key, shorter
  keys first and keys of equal length in byte order, and keeps the last of several members
  with the same key. The value read back is the object in that order.
\<close>

fun bytes_le :: "string \<Rightarrow> string \<Rightarrow> bool" where
  "bytes_le [] ys = True"
| "bytes_le (x # xs) [] = False"
| "bytes_le (x # xs) (y # ys) =
     ((of_char x :: nat) < of_char y \<or> (x = y \<and> bytes_le xs ys))"

definition key_le :: "string \<Rightarrow> string \<Rightarrow> bool" where
  "key_le a b = (length a < length b \<or> (length a = length b \<and> bytes_le a b))"

fun insert_member :: "string \<times> json \<Rightarrow> (string \<times> json) list \<Rightarrow> (string \<times> json) list" where
  "insert_member kv [] = [kv]"
| "insert_member kv (x # xs) =
     (if fst kv = fst x then kv # xs
      else if key_le (fst kv) (fst x) then kv # x # xs
      else x # insert_member kv xs)"

definition jsonb_members :: "(string \<times> json) list \<Rightarrow> (string \<times> json) list" where
  "jsonb_members kvs = foldl (\<lambda>acc kv. insert_member kv acc) [] kvs"

fun jsonb :: "json \<Rightarrow> json" where
  "jsonb (JArr xs) = JArr (map jsonb xs)"
| "jsonb (JObj kvs) = JObj (jsonb_members (map (\<lambda>kv. (fst kv, jsonb (snd kv))) kvs))"
| "jsonb v = v"

section \<open>\<open>worker.js\<close>: the webhook deliverer\<close>

definition PRODUCTION_RETRY_INTERVALS :: "int list" where
  "PRODUCTION_RETRY_INTERVALS = [0, 60000, 300000, 1800000, 7200000]"

definition TEST_RETRY_INTERVALS :: "int list" where
  "TEST_RETRY_INTERVALS = [0, 5000, 10000, 15000, 20000]"

definition getRetryIntervals :: "config \<Rightarrow> int list" where
  "getRetryIntervals cfg =
     (if WEBHOOK_RETRY_INTERVALS_TEST cfg then TEST_RETRY_INTERVALS
      else PRODUCTION_RETRY_INTERVALS)"

text \<open>
  Reading a JavaScript array at a number: \<open>undefined\<close> (here \<open>None\<close>) outside the array.
\<close>

definition js_index :: "'a list \<Rightarrow> int \<Rightarrow> 'a option" where
  "js_index xs i = (if 0 \<le> i \<and> nat i < length xs then Some (xs ! nat i) else None)"

text \<open>
  \<open>intervals[attempts] || intervals[intervals.length - 1]\<close>: the last entry stands in when
  the indexed one is \<open>undefined\<close> or 0.
\<close>

definition nextRetryDelay :: "config \<Rightarrow> int \<Rightarrow> int" where
  "nextRetryDelay cfg attempts =
     (let intervals = getRetryIntervals cfg in
      case js_index intervals attempts of
        Some d \<Rightarrow> if d \<noteq> 0 then d else last intervals
      | None \<Rightarrow> last intervals)"

text \<open>
  What \<open>axios.post\<close> does, as the worker sees it: the promise resolves with a response
  (its status and parsed body), or it rejects with an error that carries a message and,
  when the endpoint answered, the status of the answer (\<open>error.response?.status\<close>).
\<close>

datatype post_outcome =
    Resolved int json
  | Rejected "int option" string

text \<open>\<open>error.response?.status || 0\<close>\<close>

definition responseCode :: "int option \<Rightarrow> int" where
  "responseCode st = (case st of None \<Rightarrow> 0 | Some c \<Rightarrow> c)"

text \<open>\<open>s.substring(0, n)\<close> for \<open>n \<ge> 0\<close>\<close>

definition substring0 :: "nat \<Rightarrow> string \<Rightarrow> string" where
  "substring0 n s = take n s"

text \<open>
  \<open>INSERT INTO webhook_logs (merchant_id, event, payload, status, attempts)
   VALUES ($1, $2, $3, 'pending', 0) RETURNING *\<close>: the row as the store returns it. The id
  is the store's \<open>gen_random_uuid()\<close>, an input of the model, and \<open>created_at\<close> the
  store's \<open>CURRENT_TIMESTAMP\<close>, for which the worker's clock text stands.
\<close>

definition new_webhook_log :: "string \<Rightarrow> string \<Rightarrow> string \<Rightarrow> string \<Rightarrow> json \<Rightarrow> webhook_log" where
  "new_webhook_log new_id created merchantId event payload =
     \<lparr>wl_id = new_id, wl_merchant_id = merchantId, wl_event = event,
      wl_payload = jsonb payload, wl_status = ''pending'', wl_attempts = 0,
      wl_last_attempt_at = None, wl_next_retry_at = None, wl_response_code = None,
      wl_response_body = None, wl_created_at = created\<rparr>"

text \<open>The three \<open>UPDATE webhook_logs ... WHERE id = $n\<close> statements of the worker.\<close>

definition log_success :: "string \<Rightarrow> int \<Rightarrow> string \<Rightarrow> string \<Rightarrow> webhook_log list \<Rightarrow> webhook_log list" where
  "log_success now code body log_id ls =
     map (\<lambda>l. if wl_id l = log_id
               then l\<lparr>wl_status := ''success'', wl_attempts := wl_attempts l + 1,
                      wl_last_attempt_at := Some now, wl_response_code := Some code,
                      wl_response_body := Some body\<rparr>
               else l) ls"

definition log_failed :: "int \<Rightarrow> string \<Rightarrow> int \<Rightarrow> string \<Rightarrow> string \<Rightarrow> webhook_log list \<Rightarrow> webhook_log list" where
  "log_failed attempts now code body log_id ls =
     map (\<lambda>l. if wl_id l = log_id
               then l\<lparr>wl_status := ''failed'', wl_attempts := attempts,
                      wl_last_attempt_at := Some now, wl_response_code := Some code,
                      wl_response_body := Some body\<rparr>
               else l) ls"

definition log_retry :: "int \<Rightarrow> string \<Rightarrow> int \<Rightarrow> int \<Rightarrow> string \<Rightarrow> string \<Rightarrow> webhook_log list \<Rightarrow> webhook_log list" where
  "log_retry attempts now nextRetryAt code body log_id ls =
     map (\<lambda>l. if wl_id l = log_id
               then l\<lparr>wl_status := ''pending'', wl_attempts := attempts,
                      wl_last_attempt_at := Some now, wl_next_retry_at := Some nextRetryAt,
                      wl_response_code := Some code, wl_response_body := Some body\<rparr>
               else l) ls"

text \<open>
  The part of the job function after the log is resolved and the request was sent:
  the inner \<open>try\<close>/\<open>catch\<close>. \<open>now\<close> is the ISO clock text taken before the request,
  \<open>retry_ms\<close> is \<open>Date.now()\<close> read when the retry is scheduled.
\<close>

definition record_outcome ::
  "config \<Rightarrow> post_outcome \<Rightarrow> string \<Rightarrow> int \<Rightarrow> webhook_job \<Rightarrow> webhook_log \<Rightarrow> world \<Rightarrow> world" where
  "record_outcome cfg outcome now retry_ms job webhookLog w =
     (case outcome of
        Resolved status data \<Rightarrow>
          w\<lparr>webhook_logs :=
              log_success now status (substring0 1000 (JSON_stringify data)) (wl_id webhookLog)
                (webhook_logs w)\<rparr>
      | Rejected st message \<Rightarrow>
          (let attempts = wl_attempts webhookLog + 1 in
           if attempts \<ge> 5 then
             w\<lparr>webhook_logs :=
                 log_failed attempts now (responseCode st) message (wl_id webhookLog)
                   (webhook_logs w)\<rparr>
           else
             (let delay = nextRetryDelay cfg attempts;
                  nextRetryAt = retry_ms + delay in
              w\<lparr>webhook_logs :=
                   log_retry attempts now nextRetryAt (responseCode st) message
                     (wl_id webhookLog) (webhook_logs w),
                 webhookQueue := webhookQueue w @
                   [\<lparr>job_webhookLogId = Some (wl_id webhookLog),
                     job_merchantId = job_merchantId job, job_event = job_event job,
                     job_payload = job_payload job, job_delay = delay\<rparr>]\<rparr>)))"

text \<open>
  The job function of the \<open>webhook-delivery\<close> worker. Inputs from outside: the
  configuration, the outcome of the HTTP request, the two clock readings and the id the
  store gives a new log. The function throws where the JavaScript does: the insert hits an
  existing id, the merchant has no secret to key the HMAC with, or the job names a log
  that does not exist (\<open>webhookLog\<close> is \<open>undefined\<close> when it is first dereferenced, after
  the request). The signature and the request itself change no state and are left out.
\<close>

definition webhookWorker ::
  "config \<Rightarrow> post_outcome \<Rightarrow> string \<Rightarrow> int \<Rightarrow> string \<Rightarrow> webhook_job \<Rightarrow> world \<Rightarrow> job_result \<times> world" where
  "webhookWorker cfg outcome now retry_ms new_id job w =
     (case filter (\<lambda>m. mer_id m = job_merchantId job) (merchants w) of
        [] \<Rightarrow> (Returned, w)
      | m # _ \<Rightarrow>
          if \<not> truthy (mer_webhook_url m) then (Returned, w)
          else if truthy (job_webhookLogId job) then
            (case filter (\<lambda>l. wl_id l = the (job_webhookLogId job)) (webhook_logs w) of
               [] \<Rightarrow> (Thrown, w)
             | webhookLog # _ \<Rightarrow>
                 if mer_webhook_secret m = None then (Thrown, w)
                 else (Returned, record_outcome cfg outcome now retry_ms job webhookLog w))
          else if new_id \<in> set (map wl_id (webhook_logs w)) then (Thrown, w)
          else
            (let webhookLog = new_webhook_log new_id now (job_merchantId job) (job_event job)
                                (job_payload job);
                 w1 = w\<lparr>webhook_logs := webhook_logs w @ [webhookLog]\<rparr> in
             if mer_webhook_secret m = None then (Thrown, w1)
             else (Returned, record_outcome cfg outcome now retry_ms job webhookLog w1)))"

text \<open>
  The job function awaits each of its statements, and the API and other job functions
  run in between. A \<open>task\<close> is a job function or a retry handler between two of its
  statements, with the values it holds: the job it was given, the merchant row and the log
  row as it read them, the clock text taken before the request. The statements of the
  deliverer are the merchant lookup (\<open>read_merchant\<close>), the lookup or the insert of the
  log (\<open>resolve_log\<close>), the update that follows the outcome of the request (\<open>settle\<close>) and
  the addition of the retry job (\<open>add_job\<close>). A function that returned or threw holds
  nothing more (\<open>None\<close>).
\<close>

datatype task =
    Taken webhook_job
  | Resolving webhook_job merchant
  | Posting webhook_job webhook_log string
  | Adding webhook_job
  | Retrying merchant string webhook_log
  | Queueing merchant webhook_log

definition read_merchant :: "webhook_job \<Rightarrow> world \<Rightarrow> task option" where
  "read_merchant job w =
     (case filter (\<lambda>m. mer_id m = job_merchantId job) (merchants w) of
        [] \<Rightarrow> None
      | m # _ \<Rightarrow> if \<not> truthy (mer_webhook_url m) then None else Some (Resolving job m))"

definition resolve_log ::
  "string \<Rightarrow> string \<Rightarrow> webhook_job \<Rightarrow> merchant \<Rightarrow> world \<Rightarrow> task option \<times> world" where
  "resolve_log now new_id job m w =
     (if truthy (job_webhookLogId job) then
        (case filter (\<lambda>l. wl_id l = the (job_webhookLogId job)) (webhook_logs w) of
           [] \<Rightarrow> (None, w)
         | webhookLog # _ \<Rightarrow>
             if mer_webhook_secret m = None then (None, w)
             else (Some (Posting job webhookLog now), w))
      else if new_id \<in> set (map wl_id (webhook_logs w)) then (None, w)
      else
        (let webhookLog = new_webhook_log new_id now (job_merchantId job) (job_event job)
                            (job_payload job);
             w1 = w\<lparr>webhook_logs := webhook_logs w @ [webhookLog]\<rparr> in
         if mer_webhook_secret m = None then (None, w1)
         else (Some (Posting job webhookLog now), w1)))"

definition settle ::
  "config \<Rightarrow> post_outcome \<Rightarrow> int \<Rightarrow> webhook_job \<Rightarrow> webhook_log \<Rightarrow> string \<Rightarrow> world
     \<Rightarrow> task option \<times> world" where
  "settle cfg outcome retry_ms job webhookLog now w =
     (case outcome of
        Resolved status data \<Rightarrow>
          (None,
           w\<lparr>webhook_logs :=
               log_success now status (substring0 1000 (JSON_stringify data)) (wl_id webhookLog)
                 (webhook_logs w)\<rparr>)
      | Rejected st message \<Rightarrow>
          (let attempts = wl_attempts webhookLog + 1 in
           if attempts \<ge> 5 then
             (None,
              w\<lparr>webhook_logs :=
                  log_failed attempts now (responseCode st) message (wl_id webhookLog)
                    (webhook_logs w)\<rparr>)
           else
             (let delay = nextRetryDelay cfg attempts;
                  nextRetryAt = retry_ms + delay in
              (Some (Adding \<lparr>job_webhookLogId = Some (wl_id webhookLog),
                             job_merchantId = job_merchantId job, job_event = job_event job,
                             job_payload = job_payload job, job_delay = delay\<rparr>),
               w\<lparr>webhook_logs :=
                    log_retry attempts now nextRetryAt (responseCode st) message
                      (wl_id webhookLog) (webhook_logs w)\<rparr>))))"

definition add_job :: "webhook_job \<Rightarrow> world \<Rightarrow> world" where
  "add_job job w = w\<lparr>webhookQueue := webhookQueue w @ [job]\<rparr>"

section \<open>\<open>index.js\<close>: responses and lookups\<close>

text \<open>
  A response is its HTTP status and its JSON body. Every handler below runs after
  \<open>authenticateMerchant\<close> and takes the merchant row it left in \<open>req.merchant\<close>. A failure
  of the store or the queue that does not follow from the rows (a lost connection) is not
  an input of the model; a statement the store rejects because of the rows or the values
  (a duplicate primary key, a text longer than its \<open>VARCHAR\<close>, a negative \<open>LIMIT\<close> or
  \<open>OFFSET\<close>) throws, and the handler's \<open>catch\<close> answers 500.
\<close>

type_synonym response = "int \<times> json"

definition error_body :: "string \<Rightarrow> string \<Rightarrow> json" where
  "error_body code description =
     JObj [(''error'', JObj [(''code'', JStr code), (''description'', JStr description)])]"

definition not_found :: "string \<Rightarrow> response" where
  "not_found description = (404, error_body ''NOT_FOUND'' description)"

definition bad_request :: "string \<Rightarrow> response" where
  "bad_request description = (400, error_body ''BAD_REQUEST_ERROR'' description)"

definition internal_error :: "string \<Rightarrow> response" where
  "internal_error description = (500, error_body ''INTERNAL_ERROR'' description)"

text \<open>
  What the store accepts as a text parameter. A text with the character U+0000 is
  rejected for every column type. A parameter compared with a \<open>UUID\<close> column is read by
  the store's input function for that type: 16 bytes of two hexadecimal digits each, in
  either case, with an optional hyphen after every second byte and optional braces
  around the whole; anything else is rejected. \<open>uuid_in\<close> gives the value read in the text
  form the store returns (lowercase, hyphens after bytes 4, 6, 8 and 10), in which the rows
  of the model hold their \<open>UUID\<close> columns, or \<open>None\<close> when the store rejects the text.
\<close>

definition store_text :: "string \<Rightarrow> bool" where
  "store_text s = (CHR 0x00 \<notin> set s)"

definition is_xdigit :: "char \<Rightarrow> bool" where
  "is_xdigit c =
     (let n = (of_char c :: nat) in
      (48 \<le> n \<and> n \<le> 57) \<or> (97 \<le> n \<and> n \<le> 102) \<or> (65 \<le> n \<and> n \<le> 70))"

definition lower_xdigit :: "char \<Rightarrow> char" where
  "lower_xdigit c =
     (let n = (of_char c :: nat) in if 65 \<le> n \<and> n \<le> 70 then ''abcdef'' ! (n - 65) else c)"

function uuid_bytes :: "nat \<Rightarrow> string \<Rightarrow> (string \<times> string) option" where
  "uuid_bytes i src =
     (if 16 \<le> i then Some ([], src)
      else case src of
        a # b # rest \<Rightarrow>
          if is_xdigit a \<and> is_xdigit b
          then map_option (\<lambda>(ds, r). (lower_xdigit a # lower_xdigit b # ds, r))
                 (uuid_bytes (i + 1)
                    (if take 1 rest = ''-'' \<and> odd i \<and> i < 15 then drop 1 rest else rest))
          else None
      | _ \<Rightarrow> None)"
  by pat_completeness auto
termination
  by (relation "measure (\<lambda>(i, src). 16 - i)") auto

declare uuid_bytes.simps [simp del]

definition uuid_out :: "string \<Rightarrow> string" where
  "uuid_out ds =
     take 8 ds @ ''-'' @ take 4 (drop 8 ds) @ ''-'' @ take 4 (drop 12 ds) @ ''-''
       @ take 4 (drop 16 ds) @ ''-'' @ drop 20 ds"

definition uuid_in :: "string \<Rightarrow> string option" where
  "uuid_in source =
     (let braces = (take 1 source = ''{'');
          src = (if braces then drop 1 source else source)
      in case uuid_bytes 0 src of
           None \<Rightarrow> None
         | Some (ds, rest) \<Rightarrow>
             if (if braces then rest = ''}'' else rest = []) then Some (uuid_out ds) else None)"

text \<open>A nullable text column in a response body: \<open>null\<close> or the string.\<close>

definition nullable :: "string option \<Rightarrow> json" where
  "nullable x = (case x of None \<Rightarrow> JNull | Some s \<Rightarrow> JStr s)"

text \<open>\<open>...(x && { key: x })\<close>: the member is present when the value is truthy.\<close>

definition when_truthy :: "string \<Rightarrow> string option \<Rightarrow> (string \<times> json) list" where
  "when_truthy key x = (if truthy x then [(key, JStr (the x))] else [])"

text \<open>
  The rows of \<open>SELECT * FROM t WHERE id = $1 AND merchant_id = $2\<close> for the four tables,
  for a parameter the store accepts.
\<close>

definition orders_of :: "world \<Rightarrow> string \<Rightarrow> string \<Rightarrow> order list" where
  "orders_of w orderId merchantId =
     filter (\<lambda>r. ord_id r = orderId \<and> ord_merchant_id r = merchantId) (orders w)"

definition payments_of :: "world \<Rightarrow> string \<Rightarrow> string \<Rightarrow> payment list" where
  "payments_of w paymentId merchantId =
     filter (\<lambda>r. pay_id r = paymentId \<and> pay_merchant_id r = merchantId) (payments w)"

definition refunds_of :: "world \<Rightarrow> string \<Rightarrow> string \<Rightarrow> refund list" where
  "refunds_of w refundId merchantId =
     filter (\<lambda>r. rfnd_id r = refundId \<and> rfnd_merchant_id r = merchantId) (refunds w)"

definition webhook_logs_of :: "world \<Rightarrow> string \<Rightarrow> string \<Rightarrow> webhook_log list" where
  "webhook_logs_of w webhookId merchantId =
     filter (\<lambda>r. wl_id r = webhookId \<and> wl_merchant_id r = merchantId) (webhook_logs w)"

section \<open>\<open>index.js\<close>: reading one object\<close>

definition getOrder :: "merchant \<Rightarrow> string \<Rightarrow> world \<Rightarrow> response" where
  "getOrder m orderId w =
     (if \<not> store_text orderId then internal_error ''Failed to get order''
      else case orders_of w orderId (mer_id m) of
        [] \<Rightarrow> not_found ''Order not found''
      | order # _ \<Rightarrow>
          (200, JObj [(''id'', JStr (ord_id order)), (''amount'', JNum (ord_amount order)),
                      (''currency'', JStr (ord_currency order)),
                      (''receipt'', nullable (ord_receipt order)),
                      (''status'', JStr (ord_status order)),
                      (''created_at'', JStr (ord_created_at order))]))"

definition getPayment :: "merchant \<Rightarrow> string \<Rightarrow> world \<Rightarrow> response" where
  "getPayment m paymentId w =
     (if \<not> store_text paymentId then internal_error ''Failed to get payment''
      else case payments_of w paymentId (mer_id m) of
        [] \<Rightarrow> not_found ''Payment not found''
      | payment # _ \<Rightarrow>
          (200, JObj (
             [(''id'', JStr (pay_id payment)), (''order_id'', JStr (pay_order_id payment)),
              (''amount'', JNum (pay_amount payment)),
              (''currency'', JStr (pay_currency payment)),
              (''method'', JStr (pay_method payment))]
             @ when_truthy ''vpa'' (pay_vpa payment)
             @ when_truthy ''card_last4'' (pay_card_last4 payment)
             @ when_truthy ''card_network'' (pay_card_network payment)
             @ [(''status'', JStr (pay_status payment)),
                (''captured'', JBool (pay_captured payment))]
             @ when_truthy ''error_code'' (pay_error_code payment)
             @ when_truthy ''error_description'' (pay_error_description payment)
             @ [(''created_at'', JStr (pay_created_at payment)),
                (''updated_at'', JStr (pay_updated_at payment))])))"

definition getRefund :: "merchant \<Rightarrow> string \<Rightarrow> world \<Rightarrow> response" where
  "getRefund m refundId w =
     (if \<not> store_text refundId then internal_error ''Failed to get refund''
      else case refunds_of w refundId (mer_id m) of
        [] \<Rightarrow> not_found ''Refund not found''
      | refund # _ \<Rightarrow>
          (200, JObj (
             [(''id'', JStr (rfnd_id refund)), (''payment_id'', JStr (rfnd_payment_id refund)),
              (''amount'', JNum (rfnd_amount refund)),
              (''reason'', nullable (rfnd_reason refund)),
              (''status'', JStr (rfnd_status refund)),
              (''created_at'', JStr (rfnd_created_at refund))]
             @ when_truthy ''processed_at'' (rfnd_processed_at refund))))"

section \<open>\<open>index.js\<close>: capture, refund and manual webhook retry\<close>

definition capturePayment :: "merchant \<Rightarrow> string \<Rightarrow> string \<Rightarrow> world \<Rightarrow> response \<times> world" where
  "capturePayment m paymentId now w =
     (if \<not> store_text paymentId then (internal_error ''Failed to capture payment'', w)
      else case payments_of w paymentId (mer_id m) of
        [] \<Rightarrow> (not_found ''Payment not found'', w)
      | payment # _ \<Rightarrow>
          if pay_status payment \<noteq> ''success''
          then (bad_request ''Payment not in capturable state'', w)
          else if pay_captured payment
          then (bad_request ''Payment already captured'', w)
          else
            ((200, JObj [(''id'', JStr (pay_id payment)),
                         (''order_id'', JStr (pay_order_id payment)),
                         (''amount'', JNum (pay_amount payment)),
                         (''currency'', JStr (pay_currency payment)),
                         (''method'', JStr (pay_method payment)),
                         (''status'', JStr (pay_status payment)),
                         (''captured'', JBool True),
                         (''created_at'', JStr (pay_created_at payment)),
                         (''updated_at'', JStr now)]),
             w\<lparr>payments :=
                 map (\<lambda>p. if pay_id p = paymentId
                           then p\<lparr>pay_captured := True, pay_updated_at := now\<rparr> else p)
                     (payments w)\<rparr>))"

text \<open>
  \<open>SELECT COALESCE(SUM(amount), 0) FROM refunds WHERE payment_id = $1\<close>, read with
  \<open>parseInt\<close> from the decimal text the store returns for the sum.
\<close>

definition totalRefunded :: "world \<Rightarrow> string \<Rightarrow> int" where
  "totalRefunded w paymentId =
     to_double (sum_list (map rfnd_amount
                            (filter (\<lambda>r. rfnd_payment_id r = paymentId) (refunds w))))"

text \<open>
  The create-refund handler awaits four statements, and other requests and the workers
  run between them: the payment is read in one state of the store (\<open>w1\<close>), the sum of the
  refunds in a later one (\<open>w2\<close>), the row is inserted in a third and the job is queued in
  a fourth. There is no transaction and no lock around them.

  \<open>createRefund_check\<close> is the reading part: it answers the request (\<open>Inl\<close>) or lets the
  amount through to the insert (\<open>Inr\<close>). The body's \<open>amount\<close> is absent (\<open>None\<close>) or an
  integer, its \<open>reason\<close> absent or a string; an amount of another JSON type is compared
  through JavaScript's conversion to a number and inserted through the store's reading of
  its text, and is not part of the model.
\<close>

definition createRefund_check ::
  "merchant \<Rightarrow> string \<Rightarrow> int option \<Rightarrow> world \<Rightarrow> world \<Rightarrow> response + int" where
  "createRefund_check m paymentId amount w1 w2 =
     (if \<not> store_text paymentId then Inl (internal_error ''Failed to create refund'')
      else case payments_of w1 paymentId (mer_id m) of
        [] \<Rightarrow> Inl (not_found ''Payment not found'')
      | payment # _ \<Rightarrow>
          if pay_status payment \<noteq> ''success''
          then Inl (bad_request ''Only successful payments can be refunded'')
          else
            (let availableAmount = to_double (pay_amount payment - totalRefunded w2 paymentId) in
             case amount of
               None \<Rightarrow> Inl (bad_request ''Invalid refund amount'')
             | Some a \<Rightarrow>
                 if a = 0 \<or> a \<le> 0 then Inl (bad_request ''Invalid refund amount'')
                 else if a > availableAmount
                 then Inl (bad_request ''Refund amount exceeds available amount'')
                 else Inr a))"

text \<open>
  The \<open>INSERT INTO refunds\<close> in the state it runs in. The store rejects the row (\<open>None\<close>)
  when its id exists, when the amount is outside \<open>INTEGER\<close>, when the reason has the
  character U+0000, or when the payment or the merchant it references has no row.
\<close>

definition insert_refund ::
  "merchant \<Rightarrow> string \<Rightarrow> int \<Rightarrow> string option \<Rightarrow> string \<Rightarrow> string \<Rightarrow> world \<Rightarrow> world option" where
  "insert_refund m paymentId a reason refundId now w =
     (if refundId \<in> set (map rfnd_id (refunds w)) \<or> a < - (2 ^ 31) \<or> 2 ^ 31 \<le> a
         \<or> (case reason of None \<Rightarrow> False | Some r \<Rightarrow> \<not> store_text r)
         \<or> paymentId \<notin> set (map pay_id (payments w))
         \<or> mer_id m \<notin> set (map mer_id (merchants w))
      then None
      else Some (w\<lparr>refunds := refunds w @
                     [\<lparr>rfnd_id = refundId, rfnd_payment_id = paymentId,
                       rfnd_merchant_id = mer_id m, rfnd_amount = a, rfnd_reason = reason,
                       rfnd_status = ''pending'', rfnd_created_at = now,
                       rfnd_processed_at = None\<rparr>]\<rparr>))"

text \<open>\<open>refundQueue.add('process-refund', { refundId }, ...)\<close>\<close>

definition enqueue_refund :: "string \<Rightarrow> world \<Rightarrow> world" where
  "enqueue_refund refundId w = w\<lparr>refundQueue := refundQueue w @ [refundId]\<rparr>"

text \<open>
  The handler when nothing else runs between its statements: all four see the state \<open>w\<close>
  and what the handler itself wrote. \<open>refundId\<close> is what \<open>generateRefundId()\<close> drew and
  \<open>now\<close> the clock text.
\<close>

definition createRefund ::
  "merchant \<Rightarrow> string \<Rightarrow> int option \<Rightarrow> string option \<Rightarrow> string \<Rightarrow> string \<Rightarrow> world
     \<Rightarrow> response \<times> world" where
  "createRefund m paymentId amount reason refundId now w =
     (case createRefund_check m paymentId amount w w of
        Inl answer \<Rightarrow> (answer, w)
      | Inr a \<Rightarrow>
          (case insert_refund m paymentId a reason refundId now w of
             None \<Rightarrow> (internal_error ''Failed to create refund'', w)
           | Some w' \<Rightarrow>
               ((201, JObj ([(''id'', JStr refundId), (''payment_id'', JStr paymentId),
                             (''amount'', JNum a)]
                            @ (case reason of None \<Rightarrow> [] | Some r \<Rightarrow> [(''reason'', JStr r)])
                            @ [(''status'', JStr ''pending''), (''created_at'', JStr now)])),
                enqueue_refund refundId w')))"

text \<open>
  \<open>POST /api/v1/webhooks/:webhookId/retry\<close> awaits three statements: the log is read
  under the calling merchant, every row of that id is reset, whatever the log's status
  and whether or not a delivery of it is queued or under way, and a delivery job that
  names the log is added. \<open>retry_lookup\<close> answers the request (\<open>Inl\<close>) or gives the row read
  (\<open>Inr\<close>); \<open>db_now\<close> is the store's \<open>NOW()\<close>.
\<close>

definition retry_lookup :: "merchant \<Rightarrow> string \<Rightarrow> world \<Rightarrow> response + webhook_log" where
  "retry_lookup m webhookId w =
     (case uuid_in webhookId of
        None \<Rightarrow> Inl (internal_error ''Failed to retry webhook'')
      | Some u \<Rightarrow>
          (case webhook_logs_of w u (mer_id m) of
             [] \<Rightarrow> Inl (not_found ''Webhook log not found'')
           | webhook # _ \<Rightarrow> Inr webhook))"

definition retry_reset :: "string \<Rightarrow> int \<Rightarrow> world \<Rightarrow> world" where
  "retry_reset webhookId db_now w =
     (case uuid_in webhookId of
        None \<Rightarrow> w
      | Some u \<Rightarrow>
          w\<lparr>webhook_logs :=
              map (\<lambda>l. if wl_id l = u
                        then l\<lparr>wl_attempts := 0, wl_status := ''pending'',
                               wl_next_retry_at := Some db_now\<rparr>
                        else l)
                  (webhook_logs w)\<rparr>)"

definition retry_enqueue :: "merchant \<Rightarrow> webhook_log \<Rightarrow> world \<Rightarrow> world" where
  "retry_enqueue m webhook w =
     w\<lparr>webhookQueue := webhookQueue w @
         [\<lparr>job_webhookLogId = Some (wl_id webhook), job_merchantId = mer_id m,
           job_event = wl_event webhook, job_payload = wl_payload webhook,
           job_delay = 0\<rparr>]\<rparr>"

text \<open>The handler when nothing else runs between its statements.\<close>

definition retryWebhook :: "merchant \<Rightarrow> string \<Rightarrow> int \<Rightarrow> world \<Rightarrow> response \<times> world" where
  "retryWebhook m webhookId db_now w =
     (case retry_lookup m webhookId w of
        Inl answer \<Rightarrow> (answer, w)
      | Inr webhook \<Rightarrow>
          ((200, JObj [(''id'', JStr (wl_id webhook)), (''status'', JStr ''pending''),
                       (''message'', JStr ''Webhook retry scheduled'')]),
           retry_enqueue m webhook (retry_reset webhookId db_now w)))"

text \<open>
  \<open>PUT /api/v1/merchants/webhook\<close> and \<open>POST /api/v1/merchants/webhook/regenerate-secret\<close>
  write the calling merchant's row; the URL is stored as it is given, the secret is what
  \<open>generateWebhookSecret()\<close> drew.
\<close>

definition updateWebhookUrl :: "merchant \<Rightarrow> string option \<Rightarrow> world \<Rightarrow> response \<times> world" where
  "updateWebhookUrl m webhook_url w =
     (if (case webhook_url of None \<Rightarrow> False | Some u \<Rightarrow> \<not> store_text u)
      then (internal_error ''Failed to update webhook URL'', w)
      else
        ((200, JObj ((''message'', JStr ''Webhook URL updated successfully'')
                     # (case webhook_url of None \<Rightarrow> [] | Some u \<Rightarrow> [(''webhook_url'', JStr u)]))),
         w\<lparr>merchants :=
             map (\<lambda>r. if mer_id r = mer_id m then r\<lparr>mer_webhook_url := webhook_url\<rparr> else r)
                 (merchants w)\<rparr>))"

definition regenerateSecret :: "merchant \<Rightarrow> string \<Rightarrow> world \<Rightarrow> response \<times> world" where
  "regenerateSecret m newSecret w =
     ((200, JObj [(''webhook_secret'', JStr newSecret)]),
      w\<lparr>merchants :=
          map (\<lambda>r. if mer_id r = mer_id m then r\<lparr>mer_webhook_secret := Some newSecret\<rparr> else r)
              (merchants w)\<rparr>)"

section \<open>\<open>index.js\<close>: creating a payment\<close>

text \<open>
  The members of the request body the handler reads, each absent (or \<open>null\<close>) or a string.
\<close>

record payment_request =
  req_order_id :: "string option"
  req_method :: "string option"
  req_vpa :: "string option"
  req_card_number :: "string option"
  req_card_expiry :: "string option"
  req_card_cvv :: "string option"

text \<open>
  \<open>SELECT * FROM idempotency_keys WHERE key = $1 AND merchant_id = $2 AND expires_at > NOW()\<close>
  and \<open>DELETE FROM idempotency_keys WHERE key = $1 AND merchant_id = $2\<close>. One clock
  reading per request, in milliseconds, stands for the store's \<open>NOW()\<close> and for
  \<open>Date.now()\<close>.
\<close>

definition live_idempotency :: "world \<Rightarrow> string \<Rightarrow> string \<Rightarrow> int \<Rightarrow> idempotency_key list" where
  "live_idempotency w key merchantId now_ms =
     filter (\<lambda>i. idem_key i = key \<and> idem_merchant_id i = merchantId \<and> idem_expires_at i > now_ms)
       (idempotency_keys w)"

definition delete_idempotency :: "string \<Rightarrow> string \<Rightarrow> idempotency_key list \<Rightarrow> idempotency_key list" where
  "delete_idempotency key merchantId rows =
     filter (\<lambda>i. \<not> (idem_key i = key \<and> idem_merchant_id i = merchantId)) rows"

text \<open>\<open>card_number.slice(-4)\<close> and the network read off the first digit.\<close>

definition last4 :: "string \<Rightarrow> string" where
  "last4 s = drop (length s - 4) s"

definition cardNetwork :: "string \<Rightarrow> string" where
  "cardNetwork card_number =
     (if take 1 card_number = ''4'' then ''visa''
      else if take 1 card_number = ''5'' then ''mastercard'' else ''unknown'')"

text \<open>The body of the 201 answer, in the order the handler lists its members.\<close>

definition payment_response :: "string \<Rightarrow> order \<Rightarrow> payment_request \<Rightarrow> string \<Rightarrow> json" where
  "payment_response paymentId order req now =
     JObj ([(''id'', JStr paymentId), (''order_id'', JStr (the (req_order_id req))),
            (''amount'', JNum (ord_amount order)), (''currency'', JStr (ord_currency order)),
            (''method'', JStr (the (req_method req)))]
           @ (if req_method req = Some ''upi'' then [(''vpa'', JStr (the (req_vpa req)))] else [])
           @ (if req_method req = Some ''card''
              then [(''card_last4'', JStr (last4 (the (req_card_number req)))),
                    (''card_network'', JStr (cardNetwork (the (req_card_number req))))]
              else [])
           @ [(''status'', JStr ''pending''), (''created_at'', JStr now)])"

definition new_payment :: "merchant \<Rightarrow> string \<Rightarrow> order \<Rightarrow> payment_request \<Rightarrow> string \<Rightarrow> payment" where
  "new_payment m paymentId order req now =
     \<lparr>pay_id = paymentId, pay_order_id = the (req_order_id req), pay_merchant_id = mer_id m,
      pay_amount = ord_amount order, pay_currency = ord_currency order,
      pay_method = the (req_method req), pay_vpa = req_vpa req,
      pay_card_last4 = (if req_method req = Some ''card''
                        then Some (last4 (the (req_card_number req))) else None),
      pay_card_network = (if req_method req = Some ''card''
                          then Some (cardNetwork (the (req_card_number req))) else None),
      pay_status = ''pending'', pay_captured = False, pay_error_code = None,
      pay_error_description = None, pay_created_at = now, pay_updated_at = now\<rparr>"

text \<open>
  The create-payment handler. \<open>idempotencyKey\<close> is the \<open>Idempotency-Key\<close> header,
  \<open>paymentId\<close> what \<open>generatePaymentId()\<close> drew, \<open>now\<close> the clock text and \<open>now_ms\<close> the
  clock in milliseconds. The store rejects the order lookup when the order id has the
  character U+0000, the payment row when its id exists, when its \<open>vpa\<close> is longer than
  the column's 255 characters or when its \<open>vpa\<close> or the last four characters of the card
  number have the character U+0000, and the idempotency row when the key is longer than
  255 characters; the last happens after the payment is inserted and its job is queued.
  The key is a header value, which has no character U+0000.
\<close>

definition createPayment ::
  "merchant \<Rightarrow> string option \<Rightarrow> payment_request \<Rightarrow> string \<Rightarrow> string \<Rightarrow> int \<Rightarrow> world
     \<Rightarrow> response \<times> world" where
  "createPayment m idempotencyKey req paymentId now now_ms w =
     (if truthy idempotencyKey
         \<and> live_idempotency w (the idempotencyKey) (mer_id m) now_ms \<noteq> []
      then ((201, idem_response (hd (live_idempotency w (the idempotencyKey) (mer_id m) now_ms))), w)
      else
        (let w1 = (if truthy idempotencyKey
                   then w\<lparr>idempotency_keys :=
                           delete_idempotency (the idempotencyKey) (mer_id m) (idempotency_keys w)\<rparr>
                   else w) in
         if \<not> truthy (req_order_id req) \<or> \<not> truthy (req_method req)
         then (bad_request ''Missing required fields'', w1)
         else
           if \<not> store_text (the (req_order_id req))
           then (internal_error ''Failed to create payment'', w1)
           else
           (case orders_of w1 (the (req_order_id req)) (mer_id m) of
              [] \<Rightarrow> (bad_request ''Order not found'', w1)
            | order # _ \<Rightarrow>
                if req_method req \<noteq> Some ''upi'' \<and> req_method req \<noteq> Some ''card''
                then (bad_request ''Invalid payment method'', w1)
                else if req_method req = Some ''upi'' \<and> \<not> truthy (req_vpa req)
                then (bad_request ''VPA is required for UPI payments'', w1)
                else if req_method req = Some ''card''
                        \<and> (\<not> truthy (req_card_number req) \<or> \<not> truthy (req_card_expiry req)
                            \<or> \<not> truthy (req_card_cvv req))
                then (bad_request ''Card details are required for card payments'', w1)
                else if paymentId \<in> set (map pay_id (payments w1))
                        \<or> (case req_vpa req of
                              None \<Rightarrow> False
                            | Some v \<Rightarrow> length v > 255 \<or> \<not> store_text v)
                        \<or> (req_method req = Some ''card''
                            \<and> \<not> store_text (last4 (the (req_card_number req))))
                then (internal_error ''Failed to create payment'', w1)
                else
                  (let response = payment_response paymentId order req now;
                       w2 = w1\<lparr>payments := payments w1 @ [new_payment m paymentId order req now],
                               paymentQueue := paymentQueue w1 @ [paymentId]\<rparr> in
                   if truthy idempotencyKey then
                     (if length (the idempotencyKey) > 255
                      then (internal_error ''Failed to create payment'', w2)
                      else
                        ((201, response),
                         w2\<lparr>idempotency_keys := idempotency_keys w2 @
                              [\<lparr>idem_key = the idempotencyKey, idem_merchant_id = mer_id m,
                                idem_response = jsonb response,
                                idem_expires_at = now_ms + 24 * 60 * 60 * 1000\<rparr>]\<rparr>))
                   else ((201, response), w2)))))"

section \<open>\<open>index.js\<close>: the listings\<close>






















section \<open>The deliverer, the manual retry and the queue together\<close>

text \<open>
  The state of the whole is the store with its queues and the tasks under way. One event
  is one statement of one of them: a worker or the test endpoint fans out an event
  (\<open>enqueueWebhook\<close>), the delivery worker takes the job at some position of the queue, a
  task runs its next statement, a merchant calls the retry endpoint or changes the
  webhook URL or secret. The queue hands a job to the worker once: jobs of this queue are
  added without an \<open>attempts\<close> option, so a job function that throws is not run again. Any
  queued job may be taken next and any task may run next, which covers every order that
  delays, the worker's concurrency and the timing of requests can produce. An event that
  names no queued job, or a task that is not at that statement, changes nothing.
\<close>

record system =
  store :: world
  tasks :: "task list"

datatype event =
    Fanout int string string json
  | Take nat
  | ReadMerchant nat
  | ResolveLog nat string string
  | Settle nat post_outcome int
  | AddJob nat
  | RetryLookup merchant string
  | RetryReset nat int
  | RetryEnqueue nat
  | SetWebhookUrl merchant "string option"
  | RegenerateSecret merchant string

definition task_at :: "system \<Rightarrow> nat \<Rightarrow> task option" where
  "task_at s k = (if k < length (tasks s) then Some (tasks s ! k) else None)"

text \<open>Task \<open>k\<close> goes on as \<open>t\<close>, or is over, in the store \<open>w\<close>.\<close>

definition advance :: "nat \<Rightarrow> task option \<times> world \<Rightarrow> system \<Rightarrow> system" where
  "advance k r s =
     (case fst r of
        None \<Rightarrow> \<lparr>store = snd r, tasks = take k (tasks s) @ drop (Suc k) (tasks s)\<rparr>
      | Some t \<Rightarrow> \<lparr>store = snd r, tasks = (tasks s)[k := t]\<rparr>)"

definition step :: "config \<Rightarrow> event \<Rightarrow> system \<Rightarrow> system" where
  "step cfg e s =
     (case e of
        Fanout now_ms merchantId ev data \<Rightarrow>
          s\<lparr>store := enqueueWebhook now_ms merchantId ev data (store s)\<rparr>
      | Take i \<Rightarrow>
          if i < length (webhookQueue (store s))
          then \<lparr>store = (store s)\<lparr>webhookQueue := take i (webhookQueue (store s))
                                      @ drop (Suc i) (webhookQueue (store s))\<rparr>,
                tasks = tasks s @ [Taken (webhookQueue (store s) ! i)]\<rparr>
          else s
      | ReadMerchant k \<Rightarrow>
          (case task_at s k of
             Some (Taken job) \<Rightarrow> advance k (read_merchant job (store s), store s) s
           | _ \<Rightarrow> s)
      | ResolveLog k now new_id \<Rightarrow>
          (case task_at s k of
             Some (Resolving job m) \<Rightarrow> advance k (resolve_log now new_id job m (store s)) s
           | _ \<Rightarrow> s)
      | Settle k outcome retry_ms \<Rightarrow>
          (case task_at s k of
             Some (Posting job webhookLog now) \<Rightarrow>
               advance k (settle cfg outcome retry_ms job webhookLog now (store s)) s
           | _ \<Rightarrow> s)
      | AddJob k \<Rightarrow>
          (case task_at s k of
             Some (Adding job) \<Rightarrow> advance k (None, add_job job (store s)) s
           | _ \<Rightarrow> s)
      | RetryLookup m webhookId \<Rightarrow>
          (case retry_lookup m webhookId (store s) of
             Inl answer \<Rightarrow> s
           | Inr webhook \<Rightarrow> s\<lparr>tasks := tasks s @ [Retrying m webhookId webhook]\<rparr>)
      | RetryReset k db_now \<Rightarrow>
          (case task_at s k of
             Some (Retrying m webhookId webhook) \<Rightarrow>
               advance k (Some (Queueing m webhook), retry_reset webhookId db_now (store s)) s
           | _ \<Rightarrow> s)
      | RetryEnqueue k \<Rightarrow>
          (case task_at s k of
             Some (Queueing m webhook) \<Rightarrow> advance k (None, retry_enqueue m webhook (store s)) s
           | _ \<Rightarrow> s)
      | SetWebhookUrl m webhook_url \<Rightarrow> s\<lparr>store := snd (updateWebhookUrl m webhook_url (store s))\<rparr>
      | RegenerateSecret m newSecret \<Rightarrow> s\<lparr>store := snd (regenerateSecret m newSecret (store s))\<rparr>)"

fun run :: "config \<Rightarrow> event list \<Rightarrow> system \<Rightarrow> system" where
  "run cfg [] s = s"
| "run cfg (e # es) s = run cfg es (step cfg e s)"

text \<open>
  The statements of one delivery and of one manual retry run back to back, in a state
  with no other task under way.
\<close>

definition deliver :: "post_outcome \<Rightarrow> string \<Rightarrow> int \<Rightarrow> string \<Rightarrow> event list" where
  "deliver outcome now retry_ms new_id =
     [Take 0, ReadMerchant 0, ResolveLog 0 now new_id, Settle 0 outcome retry_ms, AddJob 0]"

definition retry :: "merchant \<Rightarrow> string \<Rightarrow> int \<Rightarrow> event list" where
  "retry m webhookId db_now = [RetryLookup m webhookId, RetryReset 0 db_now, RetryEnqueue 0]"

section \<open>Properties stated by the theorems\<close>

text \<open>
  The status step 4 is to write, by the configuration, the draw and the payment's method:
  the decision of step 3 read off the specification's table of success rates (90% for
  UPI, 95% otherwise, the configured outcome in test mode).
\<close>

definition status_written :: "config \<Rightarrow> real \<Rightarrow> string \<Rightarrow> string" where
  "status_written cfg rnd method =
     (if TEST_MODE cfg then (if TEST_PAYMENT_SUCCESS cfg then ''success'' else ''failed'')
      else if method = ''upi'' then (if rnd < 9 / 10 then ''success'' else ''failed'')
      else (if rnd < 95 / 100 then ''success'' else ''failed''))"

text \<open>
  How one run of the payment worker for \<open>paymentId\<close> that writes the status \<open>st\<close> at the
  clock text \<open>now\<close> changes a payment row \<open>q\<close> into \<open>q'\<close>: a row of another id is kept as
  it is, and a row of the job's id gets the status \<open>st\<close> whatever its status was, and the
  new \<open>updated_at\<close>; its id, order, merchant, amount, method and \<open>captured\<close> flag are kept.
\<close>

definition status_step :: "string \<Rightarrow> string \<Rightarrow> string \<Rightarrow> payment \<Rightarrow> payment \<Rightarrow> bool" where
  "status_step paymentId st now q q' =
     (if pay_id q = paymentId
      then pay_status q' = st \<and> pay_updated_at q' = now \<and> pay_id q' = pay_id q
           \<and> pay_order_id q' = pay_order_id q \<and> pay_merchant_id q' = pay_merchant_id q
           \<and> pay_amount q' = pay_amount q \<and> pay_method q' = pay_method q
           \<and> pay_captured q' = pay_captured q
      else q' = q)"

text \<open>
  The backoff table of the specification, in milliseconds, by the number of the attempt
  about to be tried (1 to 5), for the test and the production schedule.
\<close>

definition spec_backoff :: "bool \<Rightarrow> int \<Rightarrow> int" where
  "spec_backoff test n =
     (if n = 1 then 0
      else if n = 2 then (if test then 5000 else 60000)
      else if n = 3 then (if test then 10000 else 300000)
      else if n = 4 then (if test then 15000 else 1800000)
      else (if test then 20000 else 7200000))"

text \<open>The row of a log after a failed attempt that is to be retried.\<close>

definition retried_log :: "webhook_log \<Rightarrow> string \<Rightarrow> int \<Rightarrow> int \<Rightarrow> string \<Rightarrow> webhook_log" where
  "retried_log l now nextRetryAt code body =
     l\<lparr>wl_status := ''pending'', wl_attempts := wl_attempts l + 1,
       wl_last_attempt_at := Some now, wl_next_retry_at := Some nextRetryAt,
       wl_response_code := Some code, wl_response_body := Some body\<rparr>"

text \<open>The refund row the create-refund handler inserts.\<close>

definition new_refund :: "merchant \<Rightarrow> string \<Rightarrow> int \<Rightarrow> string option \<Rightarrow> string \<Rightarrow> string \<Rightarrow> refund" where
  "new_refund m paymentId a reason refundId now =
     \<lparr>rfnd_id = refundId, rfnd_payment_id = paymentId, rfnd_merchant_id = mer_id m,
      rfnd_amount = a, rfnd_reason = reason, rfnd_status = ''pending'',
      rfnd_created_at = now, rfnd_processed_at = None\<rparr>"

text \<open>
  The sum of the amounts of the refunds recorded against a payment, as the specification
  writes it: the sum over all refund rows of the amounts of those with the payment's id.
\<close>

definition refunded :: "world \<Rightarrow> string \<Rightarrow> int" where
  "refunded w paymentId =
     (\<Sum>r \<leftarrow> refunds w. if rfnd_payment_id r = paymentId then rfnd_amount r else 0)"








text \<open>
  The log a queued job or a task is about. A job names a log when it carries the log's id
  (a truthy one, else the worker inserts a new log); a task is about the log its job
  names, or the log it has read or inserted. \<open>claims\<close> lists the logs that a queued job
  or a task is about, once for each job and task; \<open>active\<close> leaves out the retry handlers
  that have read the log and not yet reset it.
\<close>

definition named :: "string option \<Rightarrow> string list" where
  "named x = (case x of None \<Rightarrow> [] | Some lid \<Rightarrow> [lid])"

definition job_claim :: "webhook_job \<Rightarrow> string option" where
  "job_claim j = (if truthy (job_webhookLogId j) then job_webhookLogId j else None)"

fun task_claim :: "task \<Rightarrow> string option" where
  "task_claim (Taken j) = job_claim j"
| "task_claim (Resolving j m) = job_claim j"
| "task_claim (Posting j l now) = Some (wl_id l)"
| "task_claim (Adding j) = job_claim j"
| "task_claim (Retrying m webhookId l) = Some (wl_id l)"
| "task_claim (Queueing m l) = Some (wl_id l)"

fun active_claim :: "task \<Rightarrow> string option" where
  "active_claim (Retrying m webhookId l) = None"
| "active_claim t = task_claim t"

definition claims :: "system \<Rightarrow> string list" where
  "claims s =
     concat (map (\<lambda>j. named (job_claim j)) (webhookQueue (store s)))
       @ concat (map (\<lambda>t. named (task_claim t)) (tasks s))"

definition active :: "system \<Rightarrow> string list" where
  "active s =
     concat (map (\<lambda>j. named (job_claim j)) (webhookQueue (store s)))
       @ concat (map (\<lambda>t. named (active_claim t)) (tasks s))"

text \<open>
  A run in which the retry endpoint is called for a log only while no delivery job naming
  the log is queued, no delivery of it is under way and no other retry of it is being
  handled.
\<close>

definition retry_allowed :: "event \<Rightarrow> system \<Rightarrow> bool" where
  "retry_allowed e s =
     (case e of
        RetryLookup m webhookId \<Rightarrow>
          (case uuid_in webhookId of None \<Rightarrow> True | Some u \<Rightarrow> u \<notin> set (claims s))
      | _ \<Rightarrow> True)"

fun guarded :: "config \<Rightarrow> event list \<Rightarrow> system \<Rightarrow> bool" where
  "guarded cfg [] s = True"
| "guarded cfg (e # es) s = (retry_allowed e s \<and> guarded cfg es (step cfg e s))"

text \<open>
  The invariant of such runs. No log is claimed twice, and every claim is for an existing
  log. A delivery whose request is under way holds a log row with at most 4 attempts, and
  a retry handler holds the row of the id it was called with. Every log has at most 5
  attempts, exactly 5 when it is failed, and at most 4 while a job or a task other than a
  retry handler before its reset is about it.
\<close>

fun task_ok :: "task \<Rightarrow> bool" where
  "task_ok (Posting j l now) = (wl_attempts l \<le> 4)"
| "task_ok (Retrying m webhookId l) = (uuid_in webhookId = Some (wl_id l))"
| "task_ok t = True"

definition delivery_invariant :: "system \<Rightarrow> bool" where
  "delivery_invariant s =
     (distinct (claims s)
      \<and> set (claims s) \<subseteq> wl_id ` set (webhook_logs (store s))
      \<and> (\<forall>t \<in> set (tasks s). task_ok t)
      \<and> (\<forall>l \<in> set (webhook_logs (store s)).
            wl_attempts l \<le> 5 \<and> (wl_status l = ''failed'' \<longrightarrow> wl_attempts l = 5)
            \<and> (wl_id l \<in> set (active s) \<longrightarrow> wl_attempts l \<le> 4)))"

text \<open>
  The row of a log after the update of a failed attempt that is not retried, which stores
  the count \<open>attempts\<close>.
\<close>

definition exhausted_log :: "int \<Rightarrow> string \<Rightarrow> int \<Rightarrow> string \<Rightarrow> webhook_log \<Rightarrow> webhook_log" where
  "exhausted_log attempts now code body l =
     l\<lparr>wl_status := ''failed'', wl_attempts := attempts, wl_last_attempt_at := Some now,
       wl_response_code := Some code, wl_response_body := Some body\<rparr>"

section \<open>Example data\<close>

text \<open>
  Ids of \<open>UUID\<close> columns in the text form the store returns: the merchant \<open>init.sql\<close>
  seeds, a second merchant, and three webhook logs.
\<close>

abbreviation mer_A_id :: string where
  "mer_A_id \<equiv> ''a0eebc99-9c0b-4ef8-bb6d-6bb9bd380a11''"

abbreviation mer_C_id :: string where
  "mer_C_id \<equiv> ''b1ffcd00-0d1c-4fa9-8c7e-7cc0ce491b22''"

abbreviation log_id_1 :: string where
  "log_id_1 \<equiv> ''11111111-1111-4111-8111-111111111111''"

abbreviation log_id_8 :: string where
  "log_id_8 \<equiv> ''88888888-8888-4888-8888-888888888888''"

abbreviation log_id_9 :: string where
  "log_id_9 \<equiv> ''99999999-9999-4999-8999-999999999999''"

text \<open>
  A merchant as \<open>init.sql\<close> seeds it, with a webhook endpoint configured, one of its
  payments still pending, and the two worker configurations.
\<close>

definition merchant_A :: merchant where
  "merchant_A =
     \<lparr>mer_id = mer_A_id, mer_name = ''Test Merchant'', mer_email = ''test@example.com'',
      mer_api_key = ''key_test_abc123'', mer_api_secret = ''secret_test_xyz789'',
      mer_webhook_url = Some ''http://localhost:4000/webhook'',
      mer_webhook_secret = Some ''whsec_test_abc123''\<rparr>"

definition payment_1 :: payment where
  "payment_1 =
     \<lparr>pay_id = ''pay_1'', pay_order_id = ''order_1'', pay_merchant_id = mer_A_id,
      pay_amount = 50000, pay_currency = ''INR'', pay_method = ''upi'',
      pay_vpa = Some ''a@bank'', pay_card_last4 = None, pay_card_network = None,
      pay_status = ''pending'', pay_captured = False, pay_error_code = None,
      pay_error_description = None, pay_created_at = ''t0'', pay_updated_at = ''t0''\<rparr>"

definition world_1 :: world where
  "world_1 =
     \<lparr>merchants = [merchant_A], orders = [], payments = [payment_1], refunds = [],
      webhook_logs = [], idempotency_keys = [], paymentQueue = [], refundQueue = [],
      webhookQueue = []\<rparr>"

definition production :: config where
  "production =
     \<lparr>TEST_MODE = False, TEST_PAYMENT_SUCCESS = True, WEBHOOK_RETRY_INTERVALS_TEST = False\<rparr>"

definition test_mode :: config where
  "test_mode =
     \<lparr>TEST_MODE = True, TEST_PAYMENT_SUCCESS = True, WEBHOOK_RETRY_INTERVALS_TEST = True\<rparr>"

text \<open>
  A delivery job as the payment worker fans it out, a log that has seen three failed
  attempts with the job that retries it, and a merchant whose webhook URL has a scheme of
  1001 characters (\<open>PUT /api/v1/merchants/webhook\<close> stores any value).
\<close>

definition job_1 :: webhook_job where
  "job_1 =
     \<lparr>job_webhookLogId = None, job_merchantId = mer_A_id, job_event = ''payment.success'',
      job_payload = JObj [(''event'', JStr ''payment.success''), (''timestamp'', JNum 1700000000),
                          (''data'', success_payload payment_1)],
      job_delay = 0\<rparr>"

definition log_1 :: webhook_log where
  "log_1 =
     \<lparr>wl_id = log_id_1, wl_merchant_id = mer_A_id, wl_event = ''payment.success'',
      wl_payload = JNull, wl_status = ''pending'', wl_attempts = 3,
      wl_last_attempt_at = Some ''t0'', wl_next_retry_at = Some 500,
      wl_response_code = Some 500, wl_response_body = Some ''Request failed with status code 500'',
      wl_created_at = ''t0''\<rparr>"

definition job_2 :: webhook_job where
  "job_2 = job_1\<lparr>job_webhookLogId := Some log_id_1, job_delay := 1800000\<rparr>"

definition world_2 :: world where
  "world_2 = world_1\<lparr>webhook_logs := [log_1]\<rparr>"

definition long_protocol :: string where
  "long_protocol = replicate 1001 (CHR ''a'')"

definition merchant_B :: merchant where
  "merchant_B = merchant_A\<lparr>mer_webhook_url := Some (long_protocol @ ''://x'')\<rparr>"

definition world_3 :: world where
  "world_3 = world_1\<lparr>merchants := [merchant_B]\<rparr>"

text \<open>
  The merchant's payment after it succeeded and was captured, with one refund of 20000
  processed.
\<close>

definition payment_2 :: payment where
  "payment_2 = payment_1\<lparr>pay_status := ''success'', pay_captured := True, pay_updated_at := ''t1''\<rparr>"

definition refund_1 :: refund where
  "refund_1 =
     \<lparr>rfnd_id = ''rfnd_1'', rfnd_payment_id = ''pay_1'', rfnd_merchant_id = mer_A_id,
      rfnd_amount = 20000, rfnd_reason = None, rfnd_status = ''processed'',
      rfnd_created_at = ''t2'', rfnd_processed_at = Some ''t3''\<rparr>"

definition world_4 :: world where
  "world_4 = world_1\<lparr>payments := [payment_2], refunds := [refund_1]\<rparr>"

text \<open>
  A second merchant, an order of the first merchant, a state in which the first merchant
  owns an order, a payment, a refund and a webhook log, and a UPI payment request for the
  order.
\<close>

definition merchant_C :: merchant where
  "merchant_C =
     \<lparr>mer_id = mer_C_id, mer_name = ''Other Merchant'', mer_email = ''other@example.com'',
      mer_api_key = ''key_test_other'', mer_api_secret = ''secret_test_other'',
      mer_webhook_url = None, mer_webhook_secret = None\<rparr>"

definition order_1 :: order where
  "order_1 =
     \<lparr>ord_id = ''order_1'', ord_merchant_id = mer_A_id, ord_amount = 50000,
      ord_currency = ''INR'', ord_receipt = None, ord_status = ''created'',
      ord_created_at = ''t0''\<rparr>"

definition world_5 :: world where
  "world_5 =
     world_1\<lparr>merchants := [merchant_A, merchant_C], orders := [order_1],
             payments := [payment_2], refunds := [refund_1], webhook_logs := [log_1]\<rparr>"

definition upi_request :: payment_request where
  "upi_request =
     \<lparr>req_order_id = Some ''order_1'', req_method = Some ''upi'', req_vpa = Some ''a@bank'',
      req_card_number = None, req_card_expiry = None, req_card_cvv = None\<rparr>"


text \<open>
  An endpoint that always answers 500 and one that answers 200; a state with nothing
  queued and no task under way; a delivery that is fanned out and fails five times; the
  same followed by a manual retry and a successful delivery; and a delivery during whose
  first request the merchant calls the retry endpoint, with the endpoint down throughout.
\<close>

definition endpoint_down :: post_outcome where
  "endpoint_down = Rejected (Some 500) ''Request failed with status code 500''"

definition endpoint_up :: post_outcome where
  "endpoint_up = Resolved 200 (JObj [(''received'', JBool True)])"

definition system_1 :: system where
  "system_1 = \<lparr>store = world_1, tasks = []\<rparr>"

definition exhausting_run :: "event list" where
  "exhausting_run =
     Fanout 1700000000000 mer_A_id ''payment.success'' (success_payload payment_1)
     # deliver endpoint_down ''t1'' 1000 log_id_9
     @ deliver endpoint_down ''t2'' 2000 log_id_8
     @ deliver endpoint_down ''t3'' 3000 log_id_8
     @ deliver endpoint_down ''t4'' 4000 log_id_8
     @ deliver endpoint_down ''t5'' 5000 log_id_8"

definition retry_after_exhaustion :: "event list" where
  "retry_after_exhaustion =
     exhausting_run @ retry merchant_A log_id_9 6000 @ deliver endpoint_up ''t7'' 7000 log_id_8"

definition retry_during_request :: "event list" where
  "retry_during_request =
     [Fanout 1700000000000 mer_A_id ''payment.success'' (success_payload payment_1),
      Take 0, ReadMerchant 0, ResolveLog 0 ''t1'' log_id_9]
     @ [RetryLookup merchant_A log_id_9, RetryReset 1 1500, RetryEnqueue 1]
     @ [Settle 0 endpoint_down 2000, AddJob 0]
     @ deliver endpoint_down ''t3'' 3000 log_id_8
     @ deliver endpoint_down ''t4'' 4000 log_id_8
     @ deliver endpoint_down ''t5'' 5000 log_id_8
     @ deliver endpoint_down ''t6'' 6000 log_id_8
     @ deliver endpoint_down ''t7'' 7000 log_id_8"

section \<open>The payment worker\<close>

subsection \<open>A job for an unknown payment\<close>

lemma payment_with_merchant_unknown:
  assumes "\<forall>p \<in> set (payments w). pay_id p \<noteq> paymentId"
  shows "payment_with_merchant w paymentId = []"
proof -
  have "filter (\<lambda>p. pay_id p = paymentId) (payments w) = []"
    using assms by (simp add: filter_empty_conv)
  then show ?thesis
    by (simp add: payment_with_merchant_def)
qed

text \<open>
  C10. A job whose \<open>paymentId\<close> matches no payment row is a no-op: the job function
  returns (it does not throw, so the queue does not retry it) and the whole state is as
  before, which covers every payment row and the webhook queue.
\<close>

theorem paymentWorker_unknown_payment:
  assumes "\<forall>p \<in> set (payments w). pay_id p \<noteq> paymentId"
  shows "paymentWorker cfg rnd now now_ms paymentId w = (Returned, w)"
  using payment_with_merchant_unknown [OF assms]
  by (simp add: paymentWorker_def)

theorem paymentWorker_unknown_payment_witness:
  "map pay_id (payments world_1) = [''pay_1'']
   \<and> paymentWorker production 0 ''t1'' 1000 ''pay_2'' world_1 = (Returned, world_1)"
proof -
  have ids: "map pay_id (payments world_1) = [''pay_1'']"
    by (simp add: world_1_def payment_1_def)
  have h: "\<forall>p \<in> set (payments world_1). pay_id p \<noteq> ''pay_2''"
    by (simp add: world_1_def payment_1_def)
  from paymentWorker_unknown_payment [OF h] ids show ?thesis by simp
qed

subsection \<open>The status written by step 4\<close>

lemma payment_with_merchant_empty_iff:
  "payment_with_merchant w paymentId = [] \<longleftrightarrow>
     (\<forall>p \<in> set (payments w). pay_id p = paymentId \<longrightarrow>
        (\<forall>m \<in> set (merchants w). pay_merchant_id p \<noteq> mer_id m))"
  by (auto simp: payment_with_merchant_def filter_empty_conv)

lemma payments_after_paymentWorker:
  "payments (snd (paymentWorker cfg rnd now now_ms paymentId w)) =
     (case payment_with_merchant w paymentId of
        [] \<Rightarrow> payments w
      | pm # _ \<Rightarrow> if isSuccess cfg rnd (fst pm) then mark_success now paymentId (payments w)
                  else mark_failed now paymentId (payments w))"
  by (simp add: paymentWorker_def enqueueWebhook_def Let_def split: list.splits prod.splits)

lemma merchants_after_paymentWorker:
  "merchants (snd (paymentWorker cfg rnd now now_ms paymentId w)) = merchants w"
  by (simp add: paymentWorker_def enqueueWebhook_def Let_def split: list.splits prod.splits)

lemma list_all2_map_self:
  "(\<And>x. x \<in> set xs \<Longrightarrow> P x (f x)) \<Longrightarrow> list_all2 P xs (map f xs)"
  by (induction xs) auto

lemma status_step_mark_success:
  "list_all2 (status_step paymentId ''success'' now) ps (mark_success now paymentId ps)"
  unfolding mark_success_def
  by (rule list_all2_map_self) (simp add: status_step_def)

lemma status_step_mark_failed:
  "list_all2 (status_step paymentId ''failed'' now) ps (mark_failed now paymentId ps)"
  unfolding mark_failed_def
  by (rule list_all2_map_self) (simp add: status_step_def)

lemma status_written_isSuccess:
  "status_written cfg rnd (pay_method p) = (if isSuccess cfg rnd p then ''success'' else ''failed'')"
  by (simp add: status_written_def isSuccess_def)

lemma status_written_terminal:
  "status_written cfg rnd method = ''success'' \<or> status_written cfg rnd method = ''failed''"
  by (simp add: status_written_def)

lemma paymentWorker_status_step:
  assumes "payment_with_merchant w paymentId = (p, m) # rest"
  shows "list_all2 (status_step paymentId (status_written cfg rnd (pay_method p)) now) (payments w)
     (payments (snd (paymentWorker cfg rnd now now_ms paymentId w)))"
  using assms
  by (simp add: payments_after_paymentWorker status_written_isSuccess status_step_mark_success
        status_step_mark_failed)

lemma paymentWorker_no_row:
  assumes "payment_with_merchant w paymentId = []"
  shows "paymentWorker cfg rnd now now_ms paymentId w = (Returned, w)"
  using assms by (simp add: paymentWorker_def)

lemma status_mark_success_twice:
  "map pay_status (mark_success now' paymentId (mark_success now paymentId ps))
     = map pay_status (mark_success now paymentId ps)"
  by (simp add: mark_success_def)

lemma status_mark_failed_twice:
  "map pay_status (mark_failed now' paymentId (mark_failed now paymentId ps))
     = map pay_status (mark_failed now paymentId ps)"
  by (simp add: mark_failed_def)

lemma join_empty_map:
  assumes "\<And>p. pay_id (f p) = pay_id p" "\<And>p. pay_merchant_id (f p) = pay_merchant_id p"
  shows "payment_with_merchant (w\<lparr>payments := map f (payments w)\<rparr>) pid = []
     \<longleftrightarrow> payment_with_merchant w pid = []"
  by (simp add: payment_with_merchant_empty_iff assms)

lemma join_nonempty_mark_success:
  "payment_with_merchant (w\<lparr>payments := mark_success now paymentId (payments w)\<rparr>) pid = []
     \<longleftrightarrow> payment_with_merchant w pid = []"
  unfolding mark_success_def by (rule join_empty_map) simp_all

lemma join_nonempty_mark_failed:
  "payment_with_merchant (w\<lparr>payments := mark_failed now paymentId (payments w)\<rparr>) pid = []
     \<longleftrightarrow> payment_with_merchant w pid = []"
  unfolding mark_failed_def by (rule join_empty_map) simp_all

lemma payment_with_merchant_cong:
  "payments w' = payments w \<Longrightarrow> merchants w' = merchants w \<Longrightarrow>
     payment_with_merchant w' pid = payment_with_merchant w pid"
  by (simp add: payment_with_merchant_def)

lemma test_mode_rerun:
  assumes "TEST_MODE cfg"
  shows "map pay_status (payments (snd (paymentWorker cfg rnd' now' now_ms' paymentId
            (snd (paymentWorker cfg rnd now now_ms paymentId w)))))
       = map pay_status (payments (snd (paymentWorker cfg rnd now now_ms paymentId w)))"
proof (cases "payment_with_merchant w paymentId")
  case Nil
  then have "paymentWorker cfg rnd now now_ms paymentId w = (Returned, w)"
    by (simp add: paymentWorker_def)
  then show ?thesis
    using Nil by (simp add: payments_after_paymentWorker)
next
  case (Cons pm rest)
  let ?w1 = "snd (paymentWorker cfg rnd now now_ms paymentId w)"
  show ?thesis
  proof (cases "TEST_PAYMENT_SUCCESS cfg")
    case True
    have p1: "payments ?w1 = mark_success now paymentId (payments w)"
      using Cons assms True by (simp add: payments_after_paymentWorker isSuccess_def)
    have "payment_with_merchant ?w1 paymentId
            = payment_with_merchant (w\<lparr>payments := mark_success now paymentId (payments w)\<rparr>) paymentId"
      by (rule payment_with_merchant_cong) (simp_all add: p1 merchants_after_paymentWorker)
    then have "payment_with_merchant ?w1 paymentId \<noteq> []"
      using Cons by (simp add: join_nonempty_mark_success)
    then obtain pm' rest' where "payment_with_merchant ?w1 paymentId = pm' # rest'"
      by (cases "payment_with_merchant ?w1 paymentId") auto
    then have "payments (snd (paymentWorker cfg rnd' now' now_ms' paymentId ?w1))
                 = mark_success now' paymentId (payments ?w1)"
      using assms True by (simp add: payments_after_paymentWorker isSuccess_def)
    then show ?thesis
      by (simp add: p1 status_mark_success_twice)
  next
    case False
    have p1: "payments ?w1 = mark_failed now paymentId (payments w)"
      using Cons assms False by (simp add: payments_after_paymentWorker isSuccess_def)
    have "payment_with_merchant ?w1 paymentId
            = payment_with_merchant (w\<lparr>payments := mark_failed now paymentId (payments w)\<rparr>) paymentId"
      by (rule payment_with_merchant_cong) (simp_all add: p1 merchants_after_paymentWorker)
    then have "payment_with_merchant ?w1 paymentId \<noteq> []"
      using Cons by (simp add: join_nonempty_mark_failed)
    then obtain pm' rest' where "payment_with_merchant ?w1 paymentId = pm' # rest'"
      by (cases "payment_with_merchant ?w1 paymentId") auto
    then have "payments (snd (paymentWorker cfg rnd' now' now_ms' paymentId ?w1))
                 = mark_failed now' paymentId (payments ?w1)"
      using assms False by (simp add: payments_after_paymentWorker isSuccess_def)
    then show ?thesis
      by (simp add: p1 status_mark_failed_twice)
  qed
qed

text \<open>
  C1, as the code has it. When the join finds the job's payment, one run writes the
  status of its own decision, \<open>success\<close> or \<open>failed\<close> and never \<open>pending\<close>, into every
  row of that id, whatever status the row had, and leaves every other row as it was; when
  the join is empty the run changes nothing. The update carries no condition on the
  current status. In test mode the decision is fixed by the configuration, so running the
  job again, whatever the draw and the clock, leaves every status as the first run left
  it.
\<close>

theorem paymentWorker_status:
  "(payment_with_merchant w paymentId = [] \<longrightarrow>
      paymentWorker cfg rnd now now_ms paymentId w = (Returned, w))
   \<and> (\<forall>p m rest. payment_with_merchant w paymentId = (p, m) # rest \<longrightarrow>
        list_all2 (status_step paymentId (status_written cfg rnd (pay_method p)) now) (payments w)
          (payments (snd (paymentWorker cfg rnd now now_ms paymentId w)))
        \<and> (status_written cfg rnd (pay_method p) = ''success''
             \<or> status_written cfg rnd (pay_method p) = ''failed''))
   \<and> (TEST_MODE cfg \<longrightarrow>
        map pay_status (payments (snd (paymentWorker cfg rnd' now' now_ms' paymentId
            (snd (paymentWorker cfg rnd now now_ms paymentId w)))))
        = map pay_status (payments (snd (paymentWorker cfg rnd now now_ms paymentId w))))"
proof (intro conjI allI impI)
  assume "payment_with_merchant w paymentId = []"
  then show "paymentWorker cfg rnd now now_ms paymentId w = (Returned, w)"
    by (rule paymentWorker_no_row)
next
  fix p m rest
  assume "payment_with_merchant w paymentId = (p, m) # rest"
  then show "list_all2 (status_step paymentId (status_written cfg rnd (pay_method p)) now)
      (payments w) (payments (snd (paymentWorker cfg rnd now now_ms paymentId w)))"
    by (rule paymentWorker_status_step)
next
  fix p :: payment
  show "status_written cfg rnd (pay_method p) = ''success''
      \<or> status_written cfg rnd (pay_method p) = ''failed''"
    by (rule status_written_terminal)
next
  assume "TEST_MODE cfg"
  then show "map pay_status (payments (snd (paymentWorker cfg rnd' now' now_ms' paymentId
            (snd (paymentWorker cfg rnd now now_ms paymentId w)))))
        = map pay_status (payments (snd (paymentWorker cfg rnd now now_ms paymentId w)))"
    by (rule test_mode_rerun)
qed

lemmas paymentWorker_eval =
  paymentWorker_def payment_with_merchant_def world_1_def payment_1_def merchant_A_def
  production_def test_mode_def isSuccess_def mark_failed_def mark_success_def truthy_def
  enqueueWebhook_def

theorem paymentWorker_status_witness:
  "TEST_MODE test_mode
   \<and> payment_with_merchant world_1 ''pay_1'' = [(payment_1, merchant_A)]
   \<and> payment_with_merchant world_1 ''pay_2'' = []
   \<and> paymentWorker test_mode 0 ''t1'' 1000 ''pay_2'' world_1 = (Returned, world_1)
   \<and> list_all2 (status_step ''pay_1'' ''success'' ''t1'') (payments world_1)
         (payments (snd (paymentWorker test_mode 0 ''t1'' 1000 ''pay_1'' world_1)))
   \<and> map pay_status (payments (snd (paymentWorker test_mode (99 / 100) ''t2'' 2000 ''pay_1''
          (snd (paymentWorker test_mode 0 ''t1'' 1000 ''pay_1'' world_1))))) = [''success'']
   \<and> map pay_status (payments (snd (paymentWorker test_mode 0 ''t1'' 1000 ''pay_1'' world_1)))
       = [''success'']"
proof -
  have t: "TEST_MODE test_mode"
    by (simp add: test_mode_def)
  have j1: "payment_with_merchant world_1 ''pay_1'' = [(payment_1, merchant_A)]"
    by (simp add: payment_with_merchant_def world_1_def payment_1_def merchant_A_def)
  have j2: "payment_with_merchant world_1 ''pay_2'' = []"
    by (simp add: payment_with_merchant_def world_1_def payment_1_def merchant_A_def)
  have st: "status_written test_mode 0 (pay_method payment_1) = ''success''"
    by (simp add: status_written_def test_mode_def)
  have one: "map pay_status (payments (snd (paymentWorker test_mode 0 ''t1'' 1000 ''pay_1'' world_1)))
       = [''success'']"
    by (simp add: paymentWorker_eval)
  note a = paymentWorker_status [of world_1 "''pay_2''" test_mode 0 "''t1''" 1000 "99 / 100" "''t2''" 2000]
  note b = paymentWorker_status [of world_1 "''pay_1''" test_mode 0 "''t1''" 1000 "99 / 100" "''t2''" 2000]
  have none: "paymentWorker test_mode 0 ''t1'' 1000 ''pay_2'' world_1 = (Returned, world_1)"
    using a j2 by blast
  have step: "list_all2 (status_step ''pay_1'' ''success'' ''t1'') (payments world_1)
         (payments (snd (paymentWorker test_mode 0 ''t1'' 1000 ''pay_1'' world_1)))"
    using b j1 st by (metis (no_types, lifting))
  have again: "map pay_status (payments (snd (paymentWorker test_mode (99 / 100) ''t2'' 2000 ''pay_1''
          (snd (paymentWorker test_mode 0 ''t1'' 1000 ''pay_1'' world_1))))) = [''success'']"
    using b t one by simp
  from t j1 j2 none step again one show ?thesis by (intro conjI)
qed

text \<open>
  C1, as the claim states it, fails outside test mode. The payment is pending; the first
  run draws 0.99 and marks it failed; the queue runs the job again, this run draws 0 and
  the terminal status \<open>failed\<close> is replaced by \<open>success\<close>.
\<close>

theorem paymentWorker_overwrites_terminal_status:
  "map pay_status (payments world_1) = [''pending'']
   \<and> map pay_status (payments (snd (paymentWorker production (99 / 100) ''t1'' 1000 ''pay_1'' world_1)))
       = [''failed'']
   \<and> map pay_status (payments (snd (paymentWorker production 0 ''t2'' 2000 ''pay_1''
          (snd (paymentWorker production (99 / 100) ''t1'' 1000 ''pay_1'' world_1)))))
       = [''success'']"
  by (simp add: paymentWorker_eval)

section \<open>The webhook deliverer\<close>

subsection \<open>Scheduling a retry\<close>

lemma nextRetryDelay_table:
  assumes "1 \<le> a" "a < 5"
  shows "nextRetryDelay cfg a = spec_backoff (WEBHOOK_RETRY_INTERVALS_TEST cfg) (a + 1)"
proof -
  from assms have "a = 1 \<or> a = 2 \<or> a = 3 \<or> a = 4" by arith
  then show ?thesis
    by (auto simp: nextRetryDelay_def getRetryIntervals_def js_index_def spec_backoff_def
          PRODUCTION_RETRY_INTERVALS_def TEST_RETRY_INTERVALS_def)
qed

lemma filter_update_by_id:
  assumes "\<And>x. wl_id (g x) = wl_id x"
  shows "filter (\<lambda>x. wl_id x = i) (map (\<lambda>x. if wl_id x = i then g x else x) xs)
           = map g (filter (\<lambda>x. wl_id x = i) xs)"
  by (induction xs) (auto simp: assms)

lemma record_outcome_retry:
  assumes att: "0 \<le> wl_attempts l" "wl_attempts l + 1 < 5"
      and row: "filter (\<lambda>x. wl_id x = wl_id l) (webhook_logs w) = [l]"
  shows "filter (\<lambda>x. wl_id x = wl_id l)
           (webhook_logs (record_outcome cfg (Rejected st msg) now retry_ms job l w))
         = [retried_log l now
              (retry_ms + spec_backoff (WEBHOOK_RETRY_INTERVALS_TEST cfg) (wl_attempts l + 2))
              (responseCode st) msg]"
    and "webhookQueue (record_outcome cfg (Rejected st msg) now retry_ms job l w)
         = webhookQueue w @
             [\<lparr>job_webhookLogId = Some (wl_id l), job_merchantId = job_merchantId job,
               job_event = job_event job, job_payload = job_payload job,
               job_delay = spec_backoff (WEBHOOK_RETRY_INTERVALS_TEST cfg) (wl_attempts l + 2)\<rparr>]"
proof -
  have d: "nextRetryDelay cfg (wl_attempts l + 1)
             = spec_backoff (WEBHOOK_RETRY_INTERVALS_TEST cfg) (wl_attempts l + 2)"
  proof -
    have e: "wl_attempts l + 1 + 1 = wl_attempts l + 2" by simp
    show ?thesis
      using nextRetryDelay_table [of "wl_attempts l + 1" cfg, unfolded e] att by simp
  qed
  have w': "record_outcome cfg (Rejected st msg) now retry_ms job l w
        = w\<lparr>webhook_logs :=
               log_retry (wl_attempts l + 1) now (retry_ms + nextRetryDelay cfg (wl_attempts l + 1))
                 (responseCode st) msg (wl_id l) (webhook_logs w),
             webhookQueue := webhookQueue w @
               [\<lparr>job_webhookLogId = Some (wl_id l), job_merchantId = job_merchantId job,
                 job_event = job_event job, job_payload = job_payload job,
                 job_delay = nextRetryDelay cfg (wl_attempts l + 1)\<rparr>]\<rparr>"
    using att by (simp add: record_outcome_def Let_def)
  show "filter (\<lambda>x. wl_id x = wl_id l)
           (webhook_logs (record_outcome cfg (Rejected st msg) now retry_ms job l w))
         = [retried_log l now
              (retry_ms + spec_backoff (WEBHOOK_RETRY_INTERVALS_TEST cfg) (wl_attempts l + 2))
              (responseCode st) msg]"
    unfolding w' log_retry_def
    by (simp add: filter_update_by_id row d retried_log_def)
  show "webhookQueue (record_outcome cfg (Rejected st msg) now retry_ms job l w)
         = webhookQueue w @
             [\<lparr>job_webhookLogId = Some (wl_id l), job_merchantId = job_merchantId job,
               job_event = job_event job, job_payload = job_payload job,
               job_delay = spec_backoff (WEBHOOK_RETRY_INTERVALS_TEST cfg) (wl_attempts l + 2)\<rparr>]"
    unfolding w' by (simp add: d)
qed

lemma webhookWorker_named_log:
  assumes "filter (\<lambda>m. mer_id m = job_merchantId job) (merchants w) = m # ms"
      and "truthy (mer_webhook_url m)" and "mer_webhook_secret m \<noteq> None"
      and "job_webhookLogId job = Some lid" and "lid \<noteq> []"
      and "filter (\<lambda>x. wl_id x = lid) (webhook_logs w) = l # ls"
  shows "webhookWorker cfg outcome now retry_ms new_id job w
           = (Returned, record_outcome cfg outcome now retry_ms job l w)"
  using assms by (simp add: webhookWorker_def truthy_def)

lemma webhookWorker_new_log:
  assumes "filter (\<lambda>m. mer_id m = job_merchantId job) (merchants w) = m # ms"
      and "truthy (mer_webhook_url m)" and "mer_webhook_secret m \<noteq> None"
      and "\<not> truthy (job_webhookLogId job)"
      and "new_id \<notin> set (map wl_id (webhook_logs w))"
  shows "webhookWorker cfg outcome now retry_ms new_id job w
           = (Returned,
              record_outcome cfg outcome now retry_ms job
                (new_webhook_log new_id now (job_merchantId job) (job_event job) (job_payload job))
                (w\<lparr>webhook_logs := webhook_logs w @
                     [new_webhook_log new_id now (job_merchantId job) (job_event job) (job_payload job)]\<rparr>))"
  using assms by (simp add: webhookWorker_def Let_def)

lemma filter_id_eq_Cons:
  assumes "filter (\<lambda>x. wl_id x = lid) ls = l # rest"
  shows "wl_id l = lid"
proof -
  have "l \<in> set (filter (\<lambda>x. wl_id x = lid) ls)"
    by (simp add: assms)
  then show ?thesis by simp
qed

lemma filter_fresh_id:
  assumes "new_id \<notin> set (map wl_id ls)"
  shows "filter (\<lambda>x. wl_id x = new_id) ls = []"
  using assms by (auto simp: filter_empty_conv)

text \<open>
  C6. A delivery attempt fails (\<open>Rejected\<close>: a non-2xx answer, a timeout or a connection
  error) for a merchant with an endpoint and a secret, and the incremented count
  \<open>attempts'\<close> is below 5. Then the job function returns, the log's row is \<open>pending\<close> with
  \<open>attempts = attempts'\<close> and \<open>next_retry_at\<close> the clock read at scheduling plus the delay,
  and one delivery job naming the log is added with exactly that delay. The delay is the
  specification's table entry for attempt number \<open>attempts' + 1\<close>, the attempt about to be
  tried: the code reads \<open>intervals[attempts']\<close> from a zero-based array. The first
  conjunct is a job that names its log, the second a job fanned out without a log, for
  which the worker inserts a fresh row with \<open>attempts = 0\<close>.
\<close>

theorem webhookWorker_schedules_retry:
  assumes mer: "filter (\<lambda>m. mer_id m = job_merchantId job) (merchants w) = m # ms"
               "truthy (mer_webhook_url m)" "mer_webhook_secret m \<noteq> None"
  shows
   "(job_webhookLogId job = Some lid \<and> lid \<noteq> []
       \<and> filter (\<lambda>x. wl_id x = lid) (webhook_logs w) = [l]
       \<and> 0 \<le> wl_attempts l \<and> wl_attempts l + 1 < 5 \<longrightarrow>
       fst (webhookWorker cfg (Rejected st msg) now retry_ms new_id job w) = Returned
     \<and> filter (\<lambda>x. wl_id x = lid)
         (webhook_logs (snd (webhookWorker cfg (Rejected st msg) now retry_ms new_id job w)))
       = [retried_log l now
            (retry_ms + spec_backoff (WEBHOOK_RETRY_INTERVALS_TEST cfg) (wl_attempts l + 2))
            (responseCode st) msg]
     \<and> webhookQueue (snd (webhookWorker cfg (Rejected st msg) now retry_ms new_id job w))
       = webhookQueue w @
           [\<lparr>job_webhookLogId = Some lid, job_merchantId = job_merchantId job,
             job_event = job_event job, job_payload = job_payload job,
             job_delay = spec_backoff (WEBHOOK_RETRY_INTERVALS_TEST cfg) (wl_attempts l + 2)\<rparr>])
  \<and> (\<not> truthy (job_webhookLogId job) \<and> new_id \<notin> set (map wl_id (webhook_logs w)) \<longrightarrow>
       fst (webhookWorker cfg (Rejected st msg) now retry_ms new_id job w) = Returned
     \<and> filter (\<lambda>x. wl_id x = new_id)
         (webhook_logs (snd (webhookWorker cfg (Rejected st msg) now retry_ms new_id job w)))
       = [retried_log (new_webhook_log new_id now (job_merchantId job) (job_event job) (job_payload job))
            now (retry_ms + spec_backoff (WEBHOOK_RETRY_INTERVALS_TEST cfg) 2)
            (responseCode st) msg]
     \<and> webhookQueue (snd (webhookWorker cfg (Rejected st msg) now retry_ms new_id job w))
       = webhookQueue w @
           [\<lparr>job_webhookLogId = Some new_id, job_merchantId = job_merchantId job,
             job_event = job_event job, job_payload = job_payload job,
             job_delay = spec_backoff (WEBHOOK_RETRY_INTERVALS_TEST cfg) 2\<rparr>])"
proof (intro conjI impI)
  assume a: "job_webhookLogId job = Some lid \<and> lid \<noteq> []
       \<and> filter (\<lambda>x. wl_id x = lid) (webhook_logs w) = [l]
       \<and> 0 \<le> wl_attempts l \<and> wl_attempts l + 1 < 5"
  then have id: "wl_id l = lid"
    using filter_id_eq_Cons by blast
  have run: "webhookWorker cfg (Rejected st msg) now retry_ms new_id job w
           = (Returned, record_outcome cfg (Rejected st msg) now retry_ms job l w)"
    using webhookWorker_named_log [OF mer] a by blast
  have row: "filter (\<lambda>x. wl_id x = wl_id l) (webhook_logs w) = [l]"
    using a id by simp
  show "fst (webhookWorker cfg (Rejected st msg) now retry_ms new_id job w) = Returned"
    by (simp add: run)
  show "filter (\<lambda>x. wl_id x = lid)
         (webhook_logs (snd (webhookWorker cfg (Rejected st msg) now retry_ms new_id job w)))
       = [retried_log l now
            (retry_ms + spec_backoff (WEBHOOK_RETRY_INTERVALS_TEST cfg) (wl_attempts l + 2))
            (responseCode st) msg]"
    using record_outcome_retry(1) [OF _ _ row, of cfg st msg now retry_ms job] a
    by (simp add: run id)
  show "webhookQueue (snd (webhookWorker cfg (Rejected st msg) now retry_ms new_id job w))
       = webhookQueue w @
           [\<lparr>job_webhookLogId = Some lid, job_merchantId = job_merchantId job,
             job_event = job_event job, job_payload = job_payload job,
             job_delay = spec_backoff (WEBHOOK_RETRY_INTERVALS_TEST cfg) (wl_attempts l + 2)\<rparr>]"
    using record_outcome_retry(2) [OF _ _ row, of cfg st msg now retry_ms job] a
    by (simp add: run id)
next
  assume b: "\<not> truthy (job_webhookLogId job) \<and> new_id \<notin> set (map wl_id (webhook_logs w))"
  let ?l = "new_webhook_log new_id now (job_merchantId job) (job_event job) (job_payload job)"
  let ?w1 = "w\<lparr>webhook_logs := webhook_logs w @ [?l]\<rparr>"
  have run: "webhookWorker cfg (Rejected st msg) now retry_ms new_id job w
           = (Returned, record_outcome cfg (Rejected st msg) now retry_ms job ?l ?w1)"
    using webhookWorker_new_log [OF mer] b by blast
  have id: "wl_id ?l = new_id" and att: "wl_attempts ?l = 0"
    by (simp_all add: new_webhook_log_def)
  have row: "filter (\<lambda>x. wl_id x = wl_id ?l) (webhook_logs ?w1) = [?l]"
    using b filter_fresh_id [of new_id "webhook_logs w"] by (simp add: id)
  show "fst (webhookWorker cfg (Rejected st msg) now retry_ms new_id job w) = Returned"
    by (simp add: run)
  show "filter (\<lambda>x. wl_id x = new_id)
         (webhook_logs (snd (webhookWorker cfg (Rejected st msg) now retry_ms new_id job w)))
       = [retried_log ?l now (retry_ms + spec_backoff (WEBHOOK_RETRY_INTERVALS_TEST cfg) 2)
            (responseCode st) msg]"
    using record_outcome_retry(1) [OF _ _ row, of cfg st msg now retry_ms job]
    by (simp add: run id att)
  show "webhookQueue (snd (webhookWorker cfg (Rejected st msg) now retry_ms new_id job w))
       = webhookQueue w @
           [\<lparr>job_webhookLogId = Some new_id, job_merchantId = job_merchantId job,
             job_event = job_event job, job_payload = job_payload job,
             job_delay = spec_backoff (WEBHOOK_RETRY_INTERVALS_TEST cfg) 2\<rparr>]"
    using record_outcome_retry(2) [OF _ _ row, of cfg st msg now retry_ms job]
    by (simp add: run id att)
qed

lemmas example_defs =
  world_1_def world_2_def merchant_A_def payment_1_def log_1_def job_1_def job_2_def
  production_def test_mode_def

theorem webhookWorker_schedules_retry_witness:
  "webhookQueue (snd (webhookWorker test_mode (Rejected (Some 500) ''Request failed with status code 500'')
       ''t1'' 1000 log_id_9 job_1 world_1))
     = [job_1\<lparr>job_webhookLogId := Some log_id_9, job_delay := 5000\<rparr>]
   \<and> map (\<lambda>l. (wl_status l, wl_attempts l, wl_next_retry_at l))
       (webhook_logs (snd (webhookWorker test_mode (Rejected (Some 500) ''Request failed with status code 500'')
          ''t1'' 1000 log_id_9 job_1 world_1)))
     = [(''pending'', 1, Some 6000)]
   \<and> webhookQueue (snd (webhookWorker production (Rejected None ''timeout of 5000ms exceeded'')
       ''t1'' 1000 log_id_9 job_2 world_2))
     = [job_2\<lparr>job_delay := 7200000\<rparr>]
   \<and> map (\<lambda>l. (wl_status l, wl_attempts l, wl_next_retry_at l))
       (webhook_logs (snd (webhookWorker production (Rejected None ''timeout of 5000ms exceeded'')
          ''t1'' 1000 log_id_9 job_2 world_2)))
     = [(''pending'', 4, Some 7201000)]"
proof -
  have mer1: "filter (\<lambda>m. mer_id m = job_merchantId job_1) (merchants world_1) = merchant_A # []"
             "truthy (mer_webhook_url merchant_A)" "mer_webhook_secret merchant_A \<noteq> None"
    by (simp_all add: example_defs truthy_def)
  have mer2: "filter (\<lambda>m. mer_id m = job_merchantId job_2) (merchants world_2) = merchant_A # []"
    by (simp add: example_defs)
  have fresh: "\<not> truthy (job_webhookLogId job_1) \<and> log_id_9 \<notin> set (map wl_id (webhook_logs world_1))"
    by (simp add: example_defs truthy_def)
  have named: "job_webhookLogId job_2 = Some log_id_1 \<and> log_id_1 \<noteq> []
       \<and> filter (\<lambda>x. wl_id x = log_id_1) (webhook_logs world_2) = [log_1]
       \<and> 0 \<le> wl_attempts log_1 \<and> wl_attempts log_1 + 1 < 5"
    by (simp add: example_defs)
  note first = webhookWorker_schedules_retry [OF mer1, of "log_id_1" log_1 test_mode "Some 500"
      "''Request failed with status code 500''" "''t1''" 1000 "log_id_9",
      THEN conjunct2, rule_format, OF fresh]
  note later = webhookWorker_schedules_retry [OF mer2 mer1(2,3), of "log_id_1" log_1 production None
      "''timeout of 5000ms exceeded''" "''t1''" 1000 "log_id_9",
      THEN conjunct1, rule_format, OF named]
  have q1: "webhookQueue world_1 = []" and q2: "webhookQueue world_2 = []"
    by (simp_all add: world_1_def world_2_def)
  have t1: "WEBHOOK_RETRY_INTERVALS_TEST test_mode" and t2: "\<not> WEBHOOK_RETRY_INTERVALS_TEST production"
    by (simp_all add: test_mode_def production_def)
  have j1: "\<lparr>job_webhookLogId = Some log_id_9, job_merchantId = job_merchantId job_1,
             job_event = job_event job_1, job_payload = job_payload job_1, job_delay = 5000\<rparr>
           = job_1\<lparr>job_webhookLogId := Some log_id_9, job_delay := 5000\<rparr>"
    by (simp add: job_1_def)
  have j2: "\<lparr>job_webhookLogId = Some log_id_1, job_merchantId = job_merchantId job_2,
             job_event = job_event job_2, job_payload = job_payload job_2, job_delay = 7200000\<rparr>
           = job_2\<lparr>job_delay := 7200000\<rparr>"
    by (simp add: job_2_def job_1_def)
  have a3: "wl_attempts log_1 = 3"
    by (simp add: log_1_def)
  from first have a:
    "webhookQueue (snd (webhookWorker test_mode (Rejected (Some 500) ''Request failed with status code 500'')
       ''t1'' 1000 log_id_9 job_1 world_1))
     = [job_1\<lparr>job_webhookLogId := Some log_id_9, job_delay := 5000\<rparr>]"
    by (simp add: q1 t1 j1 spec_backoff_def)
  have b: "map (\<lambda>l. (wl_status l, wl_attempts l, wl_next_retry_at l))
       (webhook_logs (snd (webhookWorker test_mode (Rejected (Some 500) ''Request failed with status code 500'')
          ''t1'' 1000 log_id_9 job_1 world_1)))
     = [(''pending'', 1, Some 6000)]"
    by (simp add: webhookWorker_def record_outcome_def example_defs truthy_def new_webhook_log_def
          nextRetryDelay_def getRetryIntervals_def js_index_def TEST_RETRY_INTERVALS_def log_retry_def)
  from later have c:
    "webhookQueue (snd (webhookWorker production (Rejected None ''timeout of 5000ms exceeded'')
       ''t1'' 1000 log_id_9 job_2 world_2))
     = [job_2\<lparr>job_delay := 7200000\<rparr>]"
    by (simp add: q2 t2 j2 a3 spec_backoff_def)
  have d: "map (\<lambda>l. (wl_status l, wl_attempts l, wl_next_retry_at l))
       (webhook_logs (snd (webhookWorker production (Rejected None ''timeout of 5000ms exceeded'')
          ''t1'' 1000 log_id_9 job_2 world_2)))
     = [(''pending'', 4, Some 7201000)]"
    by (simp add: webhookWorker_def record_outcome_def example_defs truthy_def
          nextRetryDelay_def getRetryIntervals_def js_index_def PRODUCTION_RETRY_INTERVALS_def
          log_retry_def)
  from a b c d show ?thesis by (intro conjI)
qed

subsection \<open>The stored response body\<close>

lemma length_long_protocol: "length long_protocol = 1001"
  unfolding long_protocol_def by (simp only: length_replicate)

text \<open>
  C9 at a failing input. The merchant's webhook URL has a scheme of 1001 characters, the
  HTTP client rejects the request with the message \<open>Unsupported protocol\<close> followed by
  the scheme, and the failure branch stores \<open>error.message\<close> as it is: 1023 characters.
\<close>

theorem webhookWorker_failure_body_untruncated:
  "map (\<lambda>l. map_option length (wl_response_body l))
     (webhook_logs (snd (webhookWorker production
        (Rejected None (''Unsupported protocol '' @ long_protocol @ '':''))
        ''t1'' 1000 log_id_9 job_1 world_3)))
   = [Some 1023]"
  by (simp add: webhookWorker_def record_outcome_def example_defs world_3_def merchant_B_def
        truthy_def new_webhook_log_def nextRetryDelay_def getRetryIntervals_def js_index_def
        PRODUCTION_RETRY_INTERVALS_def log_retry_def length_long_protocol)

text \<open>
  The success branch does cut the body: \<open>JSON.stringify(response.data).substring(0, 1000)\<close>.
\<close>

lemma log_success_body:
  "\<forall>r \<in> set (log_success now code body lid ls). wl_id r = lid \<longrightarrow> wl_response_body r = Some body"
  by (induction ls) (simp_all add: log_success_def)

lemma length_substring0: "length (substring0 n s) \<le> n"
  by (simp add: substring0_def)

lemma record_outcome_success_body_bounded:
  assumes "r \<in> set (webhook_logs (record_outcome cfg (Resolved status data) now retry_ms job l w))"
      and "wl_id r = wl_id l"
  shows "\<exists>b. wl_response_body r = Some b \<and> length b \<le> 1000"
proof -
  have "r \<in> set (log_success now status (substring0 1000 (JSON_stringify data)) (wl_id l)
                   (webhook_logs w))"
    using assms(1) by (simp add: record_outcome_def)
  then have "wl_response_body r = Some (substring0 1000 (JSON_stringify data))"
    using log_success_body assms(2) by blast
  then show ?thesis
    using length_substring0 by blast
qed

section \<open>Refunds and the amount of the payment\<close>

subsection \<open>Numbers the handler computes with\<close>

lemma bit_length_le: "n < 2 ^ k \<Longrightarrow> bit_length n \<le> k"
proof (induction k arbitrary: n)
  case 0
  then show ?case by (simp add: bit_length.simps)
next
  case (Suc k)
  show ?case
  proof (cases "n = 0")
    case True
    then show ?thesis by (simp add: bit_length.simps)
  next
    case False
    from Suc.prems have "n div 2 < 2 ^ k" by simp
    then have "bit_length (n div 2) \<le> k" by (rule Suc.IH)
    then show ?thesis using False by (subst bit_length.simps) simp
  qed
qed

lemma nearest_double_exact:
  assumes "n < 2 ^ 53"
  shows "nearest_double n = n"
proof -
  have "bit_length n - 53 = 0"
    using bit_length_le [OF assms] by simp
  then show ?thesis
    by (simp add: nearest_double_def)
qed

lemma to_double_exact:
  assumes "\<bar>i\<bar> < 2 ^ 53"
  shows "to_double i = i"
proof (cases "i < 0")
  case True
  then have "nat (- i) < 2 ^ 53" using assms by (simp add: nat_less_iff)
  then show ?thesis using True by (simp add: to_double_def nearest_double_exact)
next
  case False
  then have "nat i < 2 ^ 53" using assms by (simp add: nat_less_iff)
  then show ?thesis using False by (simp add: to_double_def nearest_double_exact)
qed

lemma totalRefunded_refunded: "totalRefunded w paymentId = to_double (refunded w paymentId)"
proof -
  have "sum_list (map f (filter P xs)) = (\<Sum>x \<leftarrow> xs. if P x then f x else 0)"
    for f :: "refund \<Rightarrow> int" and P xs
    by (induction xs) simp_all
  then show ?thesis
    by (simp add: totalRefunded_def refunded_def)
qed

subsection \<open>The check and the insert\<close>

lemma available_exact:
  assumes "pay_amount payment < 2 ^ 31" "0 \<le> refunded w2 paymentId"
    "refunded w2 paymentId \<le> pay_amount payment"
  shows "to_double (pay_amount payment - totalRefunded w2 paymentId)
       = pay_amount payment - refunded w2 paymentId"
proof -
  have small: "(2::int) ^ 31 < 2 ^ 53" by simp
  have "\<bar>refunded w2 paymentId\<bar> < 2 ^ 53"
    using assms small by linarith
  then have t: "totalRefunded w2 paymentId = refunded w2 paymentId"
    by (simp add: totalRefunded_refunded to_double_exact)
  have "\<bar>pay_amount payment - refunded w2 paymentId\<bar> < 2 ^ 53"
    using assms small by linarith
  then show ?thesis
    by (simp add: t to_double_exact)
qed

lemma createRefund_check_amount:
  assumes "store_text paymentId" "payments_of w1 paymentId (mer_id m) = payment # rest"
    "pay_status payment = ''success''" "pay_amount payment < 2 ^ 31"
    "0 \<le> refunded w2 paymentId" "refunded w2 paymentId \<le> pay_amount payment"
  shows "createRefund_check m paymentId (Some a) w1 w2 =
     (if a \<le> 0 then Inl (bad_request ''Invalid refund amount'')
      else if a > pay_amount payment - refunded w2 paymentId
      then Inl (bad_request ''Refund amount exceeds available amount'')
      else Inr a)"
  using assms(1-3) available_exact [OF assms(4-6)]
  by (simp add: createRefund_check_def Let_def)

lemma refunded_append:
  "refunded (w\<lparr>refunds := refunds w @ [r]\<rparr>) q
     = refunded w q + (if rfnd_payment_id r = q then rfnd_amount r else 0)"
  by (simp add: refunded_def)

lemma insert_refund_Some:
  assumes "insert_refund m paymentId a reason refundId now w = Some w'"
  shows "w' = w\<lparr>refunds := refunds w @ [new_refund m paymentId a reason refundId now]\<rparr>"
  using assms by (simp add: insert_refund_def new_refund_def split: if_splits)

lemma refunded_enqueue [simp]: "refunded (enqueue_refund refundId w) q = refunded w q"
  by (simp add: enqueue_refund_def refunded_def)

text \<open>
  C2, as the code has it. The payment is read in the state \<open>w1\<close> and the sum of its refunds
  in the state \<open>w2\<close>, where the sum is between 0 and the payment's amount. The check lets
  through exactly the amounts from 1 to the remaining amount: the remaining amount
  itself passes and one unit more is answered 400 \<open>BAD_REQUEST_ERROR\<close>. When the refunds
  against the payment still sum to what the check read at the time the row is inserted
  (the state \<open>w3\<close>), the insert adds the one row, the sum grows by its amount and stays
  between 0 and the payment's amount, and the sums of all other payments are as before.
  When nothing runs between the handler's statements, a request for one unit more than
  the remaining amount leaves the whole state unchanged, and a request for the remaining
  amount that the store accepts is answered 201 and brings the sum to the payment's
  amount.
\<close>

theorem createRefund_respects_available:
  assumes "store_text paymentId"
    and "payments_of w1 paymentId (mer_id m) = payment # rest"
    and "pay_status payment = ''success''"
    and "pay_amount payment < 2 ^ 31"
    and "0 \<le> refunded w2 paymentId"
    and "refunded w2 paymentId \<le> pay_amount payment"
  shows "(createRefund_check m paymentId (Some a) w1 w2 = Inr a
            \<longleftrightarrow> 0 < a \<and> a \<le> pay_amount payment - refunded w2 paymentId)
    \<and> createRefund_check m paymentId (Some (pay_amount payment - refunded w2 paymentId + 1)) w1 w2
        = Inl (400, error_body ''BAD_REQUEST_ERROR'' ''Refund amount exceeds available amount'')
    \<and> (createRefund_check m paymentId (Some a) w1 w2 = Inr a
          \<and> refunded w3 paymentId = refunded w2 paymentId
          \<and> insert_refund m paymentId a reason refundId now w3 = Some w3' \<longrightarrow>
        refunds w3' = refunds w3 @ [new_refund m paymentId a reason refundId now]
        \<and> payments w3' = payments w3
        \<and> refunded w3' paymentId = refunded w2 paymentId + a
        \<and> 0 \<le> refunded w3' paymentId
        \<and> refunded w3' paymentId \<le> pay_amount payment
        \<and> (\<forall>q. q \<noteq> paymentId \<longrightarrow> refunded w3' q = refunded w3 q))
    \<and> (w1 = w2 \<longrightarrow>
        createRefund m paymentId (Some (pay_amount payment - refunded w2 paymentId + 1)) reason
            refundId now w1
          = ((400, error_body ''BAD_REQUEST_ERROR'' ''Refund amount exceeds available amount''), w1))
    \<and> (w1 = w2 \<and> 0 < pay_amount payment - refunded w2 paymentId
          \<and> insert_refund m paymentId (pay_amount payment - refunded w2 paymentId) reason refundId
                now w1 = Some w' \<longrightarrow>
        fst (fst (createRefund m paymentId (Some (pay_amount payment - refunded w2 paymentId))
                    reason refundId now w1)) = 201
        \<and> snd (createRefund m paymentId (Some (pay_amount payment - refunded w2 paymentId))
                    reason refundId now w1) = enqueue_refund refundId w'
        \<and> refunded (enqueue_refund refundId w') paymentId = pay_amount payment)"
proof -
  let ?rem = "pay_amount payment - refunded w2 paymentId"
  note chk = createRefund_check_amount [OF assms]
  have rem0: "0 \<le> ?rem" using assms(6) by simp
  have c1: "createRefund_check m paymentId (Some a) w1 w2 = Inr a \<longleftrightarrow> 0 < a \<and> a \<le> ?rem"
    by (simp add: chk bad_request_def)
  have c2: "createRefund_check m paymentId (Some (?rem + 1)) w1 w2
        = Inl (400, error_body ''BAD_REQUEST_ERROR'' ''Refund amount exceeds available amount'')"
    using rem0 by (simp add: chk bad_request_def)
  have c3: "refunds w3' = refunds w3 @ [new_refund m paymentId a reason refundId now]
        \<and> payments w3' = payments w3
        \<and> refunded w3' paymentId = refunded w2 paymentId + a
        \<and> 0 \<le> refunded w3' paymentId
        \<and> refunded w3' paymentId \<le> pay_amount payment
        \<and> (\<forall>q. q \<noteq> paymentId \<longrightarrow> refunded w3' q = refunded w3 q)"
    if h: "createRefund_check m paymentId (Some a) w1 w2 = Inr a
          \<and> refunded w3 paymentId = refunded w2 paymentId
          \<and> insert_refund m paymentId a reason refundId now w3 = Some w3'"
  proof -
    from h c1 have a: "0 < a" "a \<le> ?rem" by simp_all
    from h have same: "refunded w3 paymentId = refunded w2 paymentId" by simp
    from h have w3': "w3' = w3\<lparr>refunds := refunds w3 @ [new_refund m paymentId a reason refundId now]\<rparr>"
      by (simp add: insert_refund_Some)
    have s: "refunded w3' paymentId = refunded w2 paymentId + a"
      by (simp add: w3' refunded_append new_refund_def same)
    have o: "\<forall>q. q \<noteq> paymentId \<longrightarrow> refunded w3' q = refunded w3 q"
      by (simp add: w3' refunded_append new_refund_def)
    from a assms(5) s o show ?thesis
      by (simp add: w3')
  qed
  have c4: "createRefund m paymentId (Some (?rem + 1)) reason refundId now w1
          = ((400, error_body ''BAD_REQUEST_ERROR'' ''Refund amount exceeds available amount''), w1)"
    if "w1 = w2"
    using c2 that by (simp add: createRefund_def)
  have c5: "fst (fst (createRefund m paymentId (Some ?rem) reason refundId now w1)) = 201
        \<and> snd (createRefund m paymentId (Some ?rem) reason refundId now w1) = enqueue_refund refundId w'
        \<and> refunded (enqueue_refund refundId w') paymentId = pay_amount payment"
    if h: "w1 = w2 \<and> 0 < ?rem \<and> insert_refund m paymentId ?rem reason refundId now w1 = Some w'"
  proof -
    from h have pass: "createRefund_check m paymentId (Some ?rem) w1 w1 = Inr ?rem"
      using chk [of ?rem] by simp
    have ins: "insert_refund m paymentId ?rem reason refundId now w1 = Some w'"
      by (rule conjunct2 [OF conjunct2 [OF h]])
    have w': "w' = w1\<lparr>refunds := refunds w1 @ [new_refund m paymentId ?rem reason refundId now]\<rparr>"
      using ins by (rule insert_refund_Some)
    have "refunded w' paymentId = refunded w1 paymentId + ?rem"
      by (simp add: w' refunded_append new_refund_def)
    then have "refunded w' paymentId = pay_amount payment"
      using h by simp
    then show ?thesis
      using pass ins by (simp add: createRefund_def)
  qed
  from c1 c2 c3 c4 c5 show ?thesis by blast
qed

lemmas refund_example_defs =
  world_4_def world_1_def payment_2_def payment_1_def refund_1_def merchant_A_def

lemmas refund_eval =
  createRefund_def createRefund_check_def insert_refund_def enqueue_refund_def payments_of_def
  totalRefunded_def refunded_def new_refund_def store_text_def bad_request_def

lemma to_double_30000: "to_double 30000 = 30000" "to_double 20000 = 20000"
  by (simp_all add: to_double_exact)

text \<open>
  The payment of 50000 with one refund of 20000: a request for 30000 passes the check, is
  inserted and brings the sum to 50000; a request for 30001 is answered 400.
\<close>

theorem createRefund_respects_available_witness:
  "payments_of world_4 ''pay_1'' (mer_id merchant_A) = [payment_2]
   \<and> pay_amount payment_2 = 50000
   \<and> refunded world_4 ''pay_1'' = 20000
   \<and> createRefund_check merchant_A ''pay_1'' (Some 30000) world_4 world_4 = Inr 30000
   \<and> createRefund_check merchant_A ''pay_1'' (Some 30001) world_4 world_4
       = Inl (400, error_body ''BAD_REQUEST_ERROR'' ''Refund amount exceeds available amount'')
   \<and> refunded (the (insert_refund merchant_A ''pay_1'' 30000 None ''rfnd_2'' ''t4'' world_4)) ''pay_1''
       = 50000
   \<and> createRefund merchant_A ''pay_1'' (Some 30001) None ''rfnd_2'' ''t4'' world_4
       = ((400, error_body ''BAD_REQUEST_ERROR'' ''Refund amount exceeds available amount''), world_4)
   \<and> fst (fst (createRefund merchant_A ''pay_1'' (Some 30000) None ''rfnd_2'' ''t4'' world_4)) = 201
   \<and> refunded (snd (createRefund merchant_A ''pay_1'' (Some 30000) None ''rfnd_2'' ''t4'' world_4))
         ''pay_1'' = 50000"
proof -
  let ?w' = "world_4\<lparr>refunds := refunds world_4
               @ [new_refund merchant_A ''pay_1'' 30000 None ''rfnd_2'' ''t4'']\<rparr>"
  have ok: "store_text ''pay_1''" by (simp add: store_text_def)
  have found: "payments_of world_4 ''pay_1'' (mer_id merchant_A) = payment_2 # []"
    by (simp add: payments_of_def refund_example_defs)
  have succ: "pay_status payment_2 = ''success''" by (simp add: payment_2_def)
  have amt: "pay_amount payment_2 = 50000" by (simp add: payment_2_def payment_1_def)
  have int4: "pay_amount payment_2 < 2 ^ 31" by (simp add: amt)
  have sum: "refunded world_4 ''pay_1'' = 20000"
    by (simp add: refunded_def refund_example_defs)
  have low: "0 \<le> refunded world_4 ''pay_1''" by (simp add: sum)
  have bound: "refunded world_4 ''pay_1'' \<le> pay_amount payment_2" by (simp add: sum amt)
  have ins: "insert_refund merchant_A ''pay_1'' 30000 None ''rfnd_2'' ''t4'' world_4 = Some ?w'"
    by (simp add: insert_refund_def new_refund_def refund_example_defs)
  note inst = createRefund_respects_available [OF ok found succ int4 low bound,
      of 30000 world_4 None "''rfnd_2''" "''t4''" ?w' ?w', unfolded sum amt]
  have r1: "createRefund_check merchant_A ''pay_1'' (Some 30000) world_4 world_4 = Inr 30000"
    using inst [THEN conjunct1] by simp
  have r2: "createRefund_check merchant_A ''pay_1'' (Some 30001) world_4 world_4
       = Inl (400, error_body ''BAD_REQUEST_ERROR'' ''Refund amount exceeds available amount'')"
    using inst [THEN conjunct2, THEN conjunct1] by simp
  have r3: "refunded ?w' ''pay_1'' = 50000"
    using inst [THEN conjunct2, THEN conjunct2, THEN conjunct1] r1 ins sum by simp
  have r4: "createRefund merchant_A ''pay_1'' (Some 30001) None ''rfnd_2'' ''t4'' world_4
       = ((400, error_body ''BAD_REQUEST_ERROR'' ''Refund amount exceeds available amount''), world_4)"
    using inst [THEN conjunct2, THEN conjunct2, THEN conjunct2, THEN conjunct1] by simp
  have r5: "fst (fst (createRefund merchant_A ''pay_1'' (Some 30000) None ''rfnd_2'' ''t4'' world_4)) = 201
      \<and> snd (createRefund merchant_A ''pay_1'' (Some 30000) None ''rfnd_2'' ''t4'' world_4)
          = enqueue_refund ''rfnd_2'' ?w'
      \<and> refunded (enqueue_refund ''rfnd_2'' ?w') ''pay_1'' = 50000"
    using inst [THEN conjunct2, THEN conjunct2, THEN conjunct2, THEN conjunct2] ins by simp
  from found amt sum r1 r2 r3 r4 r5 ins show ?thesis by simp
qed

text \<open>
  C2, as the claim states it, fails when two requests overlap. The payment of 50000 has
  one refund of 20000. Two requests, for 30000 and for 25000, both read the sum before
  either has inserted its row: both pass the check against the remaining 30000, both
  rows are inserted, and the refunds against the payment sum to 75000.
\<close>

theorem overlapping_refunds_exceed_payment:
  "map pay_amount (payments world_4) = [50000]
   \<and> refunded world_4 ''pay_1'' = 20000
   \<and> createRefund_check merchant_A ''pay_1'' (Some 30000) world_4 world_4 = Inr 30000
   \<and> createRefund_check merchant_A ''pay_1'' (Some 25000) world_4 world_4 = Inr 25000
   \<and> map rfnd_amount (refunds (the (insert_refund merchant_A ''pay_1'' 25000 None ''rfnd_3'' ''t5''
         (the (insert_refund merchant_A ''pay_1'' 30000 None ''rfnd_2'' ''t4'' world_4)))))
       = [20000, 30000, 25000]
   \<and> refunded (the (insert_refund merchant_A ''pay_1'' 25000 None ''rfnd_3'' ''t5''
         (the (insert_refund merchant_A ''pay_1'' 30000 None ''rfnd_2'' ''t4'' world_4)))) ''pay_1''
       = 75000
   \<and> map pay_amount (payments (the (insert_refund merchant_A ''pay_1'' 25000 None ''rfnd_3'' ''t5''
         (the (insert_refund merchant_A ''pay_1'' 30000 None ''rfnd_2'' ''t4'' world_4)))))
       = [50000]"
  by (simp add: createRefund_check_def insert_refund_def payments_of_def totalRefunded_def
        refunded_def store_text_def refund_example_defs to_double_30000 to_double_exact)

section \<open>Objects of another merchant\<close>

lemma filter_foreign_empty:
  assumes "\<forall>r \<in> set rows. key r = k \<longrightarrow> owner r \<noteq> mid"
  shows "filter (\<lambda>r. key r = k \<and> owner r = mid) rows = []"
  using assms by (auto simp: filter_empty_conv)

lemmas uuid_eval = uuid_in_def uuid_bytes.simps uuid_out_def is_xdigit_def lower_xdigit_def

text \<open>
  C7, as the code has it. Every operation that resolves the object named in the path under
  the calling merchant (get order, get payment, capture, create refund, get refund, retry
  webhook) answers 404 \<open>NOT_FOUND\<close> and changes nothing when the store accepts the id and
  every row with that id belongs to another merchant. The hypothesis also holds when no
  row has the id, and the answer does not depend on the state, so a foreign object and a
  missing one are answered alike. An id of a foreign object is always one the store
  accepts; an id the store rejects (a text with the character U+0000, for a webhook log a
  text that is not a UUID) names no object and is answered 500 \<open>INTERNAL_ERROR\<close>. The order
  lookup of create-payment is different: the order is named in the body, and a request
  that passed the required-fields check is answered 400 \<open>BAD_REQUEST_ERROR\<close> with the
  description \<open>Order not found\<close>.
\<close>

theorem foreign_object_is_not_found:
  "(store_text orderId
      \<and> (\<forall>r \<in> set (orders w). ord_id r = orderId \<longrightarrow> ord_merchant_id r \<noteq> mer_id m) \<longrightarrow>
      getOrder m orderId w = (404, error_body ''NOT_FOUND'' ''Order not found''))
   \<and> (store_text paymentId
      \<and> (\<forall>r \<in> set (payments w). pay_id r = paymentId \<longrightarrow> pay_merchant_id r \<noteq> mer_id m) \<longrightarrow>
      getPayment m paymentId w = (404, error_body ''NOT_FOUND'' ''Payment not found'')
      \<and> capturePayment m paymentId now w = ((404, error_body ''NOT_FOUND'' ''Payment not found''), w)
      \<and> createRefund m paymentId amount reason newRefundId now w
          = ((404, error_body ''NOT_FOUND'' ''Payment not found''), w))
   \<and> (store_text refundId
      \<and> (\<forall>r \<in> set (refunds w). rfnd_id r = refundId \<longrightarrow> rfnd_merchant_id r \<noteq> mer_id m) \<longrightarrow>
      getRefund m refundId w = (404, error_body ''NOT_FOUND'' ''Refund not found''))
   \<and> (\<forall>u. uuid_in webhookId = Some u
      \<and> (\<forall>r \<in> set (webhook_logs w). wl_id r = u \<longrightarrow> wl_merchant_id r \<noteq> mer_id m) \<longrightarrow>
      retryWebhook m webhookId db_now w
        = ((404, error_body ''NOT_FOUND'' ''Webhook log not found''), w))
   \<and> (store_text (the (req_order_id req))
        \<and> (\<forall>r \<in> set (orders w). ord_id r = the (req_order_id req) \<longrightarrow> ord_merchant_id r \<noteq> mer_id m)
        \<and> truthy (req_order_id req) \<and> truthy (req_method req) \<longrightarrow>
      createPayment m None req newPaymentId now now_ms w
        = ((400, error_body ''BAD_REQUEST_ERROR'' ''Order not found''), w))
   \<and> (\<not> store_text orderId \<longrightarrow>
      getOrder m orderId w = (500, error_body ''INTERNAL_ERROR'' ''Failed to get order''))
   \<and> (\<not> store_text paymentId \<longrightarrow>
      getPayment m paymentId w = (500, error_body ''INTERNAL_ERROR'' ''Failed to get payment'')
      \<and> capturePayment m paymentId now w
          = ((500, error_body ''INTERNAL_ERROR'' ''Failed to capture payment''), w)
      \<and> createRefund m paymentId amount reason newRefundId now w
          = ((500, error_body ''INTERNAL_ERROR'' ''Failed to create refund''), w))
   \<and> (\<not> store_text refundId \<longrightarrow>
      getRefund m refundId w = (500, error_body ''INTERNAL_ERROR'' ''Failed to get refund''))
   \<and> (uuid_in webhookId = None \<longrightarrow>
      retryWebhook m webhookId db_now w
        = ((500, error_body ''INTERNAL_ERROR'' ''Failed to retry webhook''), w))"
proof (intro conjI impI allI)
  assume h: "store_text orderId
      \<and> (\<forall>r \<in> set (orders w). ord_id r = orderId \<longrightarrow> ord_merchant_id r \<noteq> mer_id m)"
  then have "orders_of w orderId (mer_id m) = []"
    unfolding orders_of_def by (intro filter_foreign_empty) simp
  then show "getOrder m orderId w = (404, error_body ''NOT_FOUND'' ''Order not found'')"
    using h by (simp add: getOrder_def not_found_def)
next
  assume h: "store_text paymentId
      \<and> (\<forall>r \<in> set (payments w). pay_id r = paymentId \<longrightarrow> pay_merchant_id r \<noteq> mer_id m)"
  then have none: "payments_of w paymentId (mer_id m) = []"
    unfolding payments_of_def by (intro filter_foreign_empty) simp
  from h have ok: "store_text paymentId" by simp
  show "getPayment m paymentId w = (404, error_body ''NOT_FOUND'' ''Payment not found'')"
    by (simp add: getPayment_def not_found_def none ok)
  show "capturePayment m paymentId now w = ((404, error_body ''NOT_FOUND'' ''Payment not found''), w)"
    by (simp add: capturePayment_def not_found_def none ok)
  show "createRefund m paymentId amount reason newRefundId now w
          = ((404, error_body ''NOT_FOUND'' ''Payment not found''), w)"
    by (simp add: createRefund_def createRefund_check_def not_found_def none ok)
next
  assume h: "store_text refundId
      \<and> (\<forall>r \<in> set (refunds w). rfnd_id r = refundId \<longrightarrow> rfnd_merchant_id r \<noteq> mer_id m)"
  then have "refunds_of w refundId (mer_id m) = []"
    unfolding refunds_of_def by (intro filter_foreign_empty) simp
  then show "getRefund m refundId w = (404, error_body ''NOT_FOUND'' ''Refund not found'')"
    using h by (simp add: getRefund_def not_found_def)
next
  fix u
  assume h: "uuid_in webhookId = Some u
      \<and> (\<forall>r \<in> set (webhook_logs w). wl_id r = u \<longrightarrow> wl_merchant_id r \<noteq> mer_id m)"
  then have "webhook_logs_of w u (mer_id m) = []"
    unfolding webhook_logs_of_def by (intro filter_foreign_empty) simp
  then show "retryWebhook m webhookId db_now w
        = ((404, error_body ''NOT_FOUND'' ''Webhook log not found''), w)"
    using h by (simp add: retryWebhook_def retry_lookup_def not_found_def)
next
  assume h: "store_text (the (req_order_id req))
        \<and> (\<forall>r \<in> set (orders w). ord_id r = the (req_order_id req) \<longrightarrow> ord_merchant_id r \<noteq> mer_id m)
        \<and> truthy (req_order_id req) \<and> truthy (req_method req)"
  then have "orders_of w (the (req_order_id req)) (mer_id m) = []"
    unfolding orders_of_def by (intro filter_foreign_empty) simp
  then show "createPayment m None req newPaymentId now now_ms w
        = ((400, error_body ''BAD_REQUEST_ERROR'' ''Order not found''), w)"
    using h by (simp add: createPayment_def bad_request_def truthy_def)
next
  assume "\<not> store_text orderId"
  then show "getOrder m orderId w = (500, error_body ''INTERNAL_ERROR'' ''Failed to get order'')"
    by (simp add: getOrder_def internal_error_def)
next
  assume bad: "\<not> store_text paymentId"
  show "getPayment m paymentId w = (500, error_body ''INTERNAL_ERROR'' ''Failed to get payment'')"
    using bad by (simp add: getPayment_def internal_error_def)
  show "capturePayment m paymentId now w
          = ((500, error_body ''INTERNAL_ERROR'' ''Failed to capture payment''), w)"
    using bad by (simp add: capturePayment_def internal_error_def)
  show "createRefund m paymentId amount reason newRefundId now w
          = ((500, error_body ''INTERNAL_ERROR'' ''Failed to create refund''), w)"
    using bad by (simp add: createRefund_def createRefund_check_def internal_error_def)
next
  assume "\<not> store_text refundId"
  then show "getRefund m refundId w = (500, error_body ''INTERNAL_ERROR'' ''Failed to get refund'')"
    by (simp add: getRefund_def internal_error_def)
next
  assume "uuid_in webhookId = None"
  then show "retryWebhook m webhookId db_now w
        = ((500, error_body ''INTERNAL_ERROR'' ''Failed to retry webhook''), w)"
    by (simp add: retryWebhook_def retry_lookup_def internal_error_def)
qed

text \<open>
  The second merchant asks for the first merchant's order, payment, refund and webhook
  log (by the log's id as the store prints it and in upper case with braces), and for a
  webhook log by a text that is not a UUID.
\<close>

theorem foreign_object_is_not_found_witness:
  "getOrder merchant_C ''order_1'' world_5 = (404, error_body ''NOT_FOUND'' ''Order not found'')
   \<and> getPayment merchant_C ''pay_1'' world_5 = (404, error_body ''NOT_FOUND'' ''Payment not found'')
   \<and> capturePayment merchant_C ''pay_1'' ''t1'' world_5
       = ((404, error_body ''NOT_FOUND'' ''Payment not found''), world_5)
   \<and> createRefund merchant_C ''pay_1'' (Some 100) None ''rfnd_9'' ''t1'' world_5
       = ((404, error_body ''NOT_FOUND'' ''Payment not found''), world_5)
   \<and> getRefund merchant_C ''rfnd_1'' world_5 = (404, error_body ''NOT_FOUND'' ''Refund not found'')
   \<and> map wl_id (webhook_logs world_5) = [log_id_1]
   \<and> uuid_in ''{11111111-1111-4111-8111-111111111111}'' = Some log_id_1
   \<and> retryWebhook merchant_C ''{11111111-1111-4111-8111-111111111111}'' 1000 world_5
       = ((404, error_body ''NOT_FOUND'' ''Webhook log not found''), world_5)
   \<and> createPayment merchant_C None upi_request ''pay_9'' ''t1'' 1000 world_5
       = ((400, error_body ''BAD_REQUEST_ERROR'' ''Order not found''), world_5)
   \<and> uuid_in ''log_1'' = None
   \<and> retryWebhook merchant_C ''log_1'' 1000 world_5
       = ((500, error_body ''INTERNAL_ERROR'' ''Failed to retry webhook''), world_5)"
proof -
  have o: "store_text ''order_1''
      \<and> (\<forall>r \<in> set (orders world_5). ord_id r = ''order_1'' \<longrightarrow> ord_merchant_id r \<noteq> mer_id merchant_C)"
    by (simp add: world_5_def order_1_def merchant_C_def store_text_def)
  have p: "store_text ''pay_1''
      \<and> (\<forall>r \<in> set (payments world_5). pay_id r = ''pay_1'' \<longrightarrow> pay_merchant_id r \<noteq> mer_id merchant_C)"
    by (simp add: world_5_def payment_2_def payment_1_def merchant_C_def store_text_def)
  have r: "store_text ''rfnd_1''
      \<and> (\<forall>r \<in> set (refunds world_5). rfnd_id r = ''rfnd_1'' \<longrightarrow> rfnd_merchant_id r \<noteq> mer_id merchant_C)"
    by (simp add: world_5_def refund_1_def merchant_C_def store_text_def)
  have ids: "map wl_id (webhook_logs world_5) = [log_id_1]"
    by (simp add: world_5_def log_1_def)
  have u: "uuid_in ''{11111111-1111-4111-8111-111111111111}'' = Some log_id_1"
    by (simp add: uuid_eval)
  have l: "uuid_in ''{11111111-1111-4111-8111-111111111111}'' = Some log_id_1
      \<and> (\<forall>r \<in> set (webhook_logs world_5). wl_id r = log_id_1 \<longrightarrow> wl_merchant_id r \<noteq> mer_id merchant_C)"
    using u by (simp add: world_5_def log_1_def merchant_C_def)
  have q: "store_text (the (req_order_id upi_request))
        \<and> (\<forall>r \<in> set (orders world_5). ord_id r = the (req_order_id upi_request)
             \<longrightarrow> ord_merchant_id r \<noteq> mer_id merchant_C)
        \<and> truthy (req_order_id upi_request) \<and> truthy (req_method upi_request)"
    by (simp add: world_5_def order_1_def merchant_C_def upi_request_def truthy_def store_text_def)
  have n: "uuid_in ''log_1'' = None"
    by (simp add: uuid_eval)
  note inst = foreign_object_is_not_found [of "''order_1''" world_5 merchant_C "''pay_1''" "''t1''"
      "Some 100" None "''rfnd_9''" "''rfnd_1''" "''{11111111-1111-4111-8111-111111111111}''" 1000
      upi_request "''pay_9''" 1000]
  note bad = foreign_object_is_not_found [of "''order_1''" world_5 merchant_C "''pay_1''" "''t1''"
      "Some 100" None "''rfnd_9''" "''rfnd_1''" "''log_1''" 1000 upi_request "''pay_9''" 1000]
  have a1: "getOrder merchant_C ''order_1'' world_5 = (404, error_body ''NOT_FOUND'' ''Order not found'')"
    using inst o by blast
  have a2: "getPayment merchant_C ''pay_1'' world_5 = (404, error_body ''NOT_FOUND'' ''Payment not found'')
      \<and> capturePayment merchant_C ''pay_1'' ''t1'' world_5
          = ((404, error_body ''NOT_FOUND'' ''Payment not found''), world_5)
      \<and> createRefund merchant_C ''pay_1'' (Some 100) None ''rfnd_9'' ''t1'' world_5
          = ((404, error_body ''NOT_FOUND'' ''Payment not found''), world_5)"
    using inst p by blast
  have a3: "getRefund merchant_C ''rfnd_1'' world_5 = (404, error_body ''NOT_FOUND'' ''Refund not found'')"
    using inst r by blast
  have a4: "retryWebhook merchant_C ''{11111111-1111-4111-8111-111111111111}'' 1000 world_5
       = ((404, error_body ''NOT_FOUND'' ''Webhook log not found''), world_5)"
    using inst l by blast
  have a5: "createPayment merchant_C None upi_request ''pay_9'' ''t1'' 1000 world_5
       = ((400, error_body ''BAD_REQUEST_ERROR'' ''Order not found''), world_5)"
    using inst q by blast
  have a6: "retryWebhook merchant_C ''log_1'' 1000 world_5
       = ((500, error_body ''INTERNAL_ERROR'' ''Failed to retry webhook''), world_5)"
    using bad n by blast
  from a1 a2 a3 ids u a4 a5 n a6 show ?thesis by (intro conjI) simp_all
qed


text \<open>
  C7, as the claim states it, fails for create-payment: the order exists and its owner
  reads it, the other merchant's read is answered 404, and the other merchant's payment
  for it is answered 400.
\<close>

theorem createPayment_foreign_order_is_400:
  "getOrder merchant_A ''order_1'' world_5 \<noteq> (404, error_body ''NOT_FOUND'' ''Order not found'')
   \<and> getOrder merchant_C ''order_1'' world_5 = (404, error_body ''NOT_FOUND'' ''Order not found'')
   \<and> createPayment merchant_C None upi_request ''pay_9'' ''t1'' 1000 world_5
       = ((400, error_body ''BAD_REQUEST_ERROR'' ''Order not found''), world_5)"
  by (simp add: getOrder_def createPayment_def orders_of_def world_5_def order_1_def
        merchant_A_def merchant_C_def upi_request_def not_found_def bad_request_def truthy_def
        store_text_def)

section \<open>Pagination parameters and the empty idempotency key\<close>

subsection \<open>What \<open>parseInt\<close> reads\<close>

















subsection \<open>The four listings\<close>








section \<open>Idempotent replay of create-payment\<close>

subsection \<open>What a \<open>JSONB\<close> column returns for a flat object\<close>








subsection \<open>The record written by the first request and read by the second\<close>












section \<open>The attempt ceiling of a webhook log\<close>

subsection \<open>Claims when a job or a task leaves, enters or changes\<close>

lemma mset_concat_remove:
  assumes "i < length xs"
  shows "mset (concat (map f (take i xs @ drop (Suc i) xs))) + mset (f (xs ! i))
       = mset (concat (map f xs))"
proof -
  have "mset (concat (map f xs)) = mset (concat (map f (take i xs @ xs ! i # drop (Suc i) xs)))"
    using id_take_nth_drop [OF assms] by simp
  then show ?thesis by simp
qed

lemma mset_concat_update:
  assumes "k < length xs"
  shows "mset (concat (map f (xs[k := t]))) + mset (f (xs ! k))
       = mset (concat (map f xs)) + mset (f t)"
proof -
  define R where "R = mset (concat (map f (take k xs @ drop (Suc k) xs)))"
  have r: "R + mset (f (xs ! k)) = mset (concat (map f xs))"
    unfolding R_def by (rule mset_concat_remove [OF assms])
  have u: "mset (concat (map f (xs[k := t]))) = R + mset (f t)"
    unfolding R_def by (simp add: upd_conv_take_nth_drop [OF assms])
  have "R + mset (f t) + mset (f (xs ! k)) = (R + mset (f (xs ! k))) + mset (f t)"
    by simp
  then show ?thesis
    by (simp only: u r)
qed

lemma set_concat_remove:
  "set (concat (map f (take i xs @ drop (Suc i) xs))) \<subseteq> set (concat (map f xs))"
  using set_take_subset [of i xs] set_drop_subset [of "Suc i" xs] by auto

lemma set_concat_update:
  "set (concat (map f (xs[k := t]))) \<subseteq> set (f t) \<union> set (concat (map f xs))"
  using set_update_subset_insert [of xs k t] by auto

lemma distinct_sub:
  assumes "mset xs \<subseteq># mset ys" "distinct ys"
  shows "distinct xs"
proof -
  have "count (mset xs) a \<le> 1" for a
  proof -
    have "count (mset xs) a \<le> count (mset ys) a"
      using assms(1) by (rule mset_subset_eq_count)
    also have "\<dots> \<le> 1"
      using assms(2) by (simp add: distinct_count_atmost_1)
    finally show ?thesis .
  qed
  then show ?thesis
    by (metis count_mset_0_iff distinct_count_atmost_1 le_antisym less_one not_le_imp_less)
qed

lemma set_sub:
  assumes "mset xs \<subseteq># mset ys"
  shows "set xs \<subseteq> set ys"
  using set_mset_mono [OF assms] by simp

lemma named_active_sub: "set (named (active_claim t)) \<subseteq> set (named (task_claim t))"
  by (cases t) (simp_all add: named_def)

lemma active_sub_claims: "set (active s) \<subseteq> set (claims s)"
  using named_active_sub by (fastforce simp: active_def claims_def)

subsection \<open>How the invariant is kept\<close>

lemma ids_update:
  assumes "\<And>l. wl_id (g l) = wl_id l"
  shows "wl_id ` set (map (\<lambda>l. if wl_id l = lid then g l else l) ls) = wl_id ` set ls"
proof -
  have "map wl_id (map (\<lambda>l. if wl_id l = lid then g l else l) ls) = map wl_id ls"
    by (induction ls) (simp_all add: assms)
  then have "set (map wl_id (map (\<lambda>l. if wl_id l = lid then g l else l) ls)) = set (map wl_id ls)"
    by simp
  then show ?thesis
    by (simp only: set_map)
qed

lemma invariant_update:
  assumes inv: "delivery_invariant s"
    and logs: "webhook_logs (store s')
        = map (\<lambda>l. if wl_id l = lid then g l else l) (webhook_logs (store s))"
    and gid: "\<And>l. wl_id (g l) = wl_id l"
    and cl: "mset (claims s') \<subseteq># mset (claims s)"
    and ac: "set (active s') \<subseteq> insert lid (set (active s))"
    and tk: "\<And>t. t \<in> set (tasks s') \<Longrightarrow> t \<in> set (tasks s) \<or> task_ok t"
    and rows: "\<And>l. l \<in> set (webhook_logs (store s)) \<Longrightarrow> wl_id l = lid \<Longrightarrow>
        wl_attempts (g l) \<le> 5 \<and> (wl_status (g l) = ''failed'' \<longrightarrow> wl_attempts (g l) = 5)
        \<and> (lid \<in> set (active s') \<longrightarrow> wl_attempts (g l) \<le> 4)"
  shows "delivery_invariant s'"
proof -
  from inv have d: "distinct (claims s)"
    and sub: "set (claims s) \<subseteq> wl_id ` set (webhook_logs (store s))"
    and tok: "\<And>t. t \<in> set (tasks s) \<Longrightarrow> task_ok t"
    and old: "\<And>l. l \<in> set (webhook_logs (store s)) \<Longrightarrow>
        wl_attempts l \<le> 5 \<and> (wl_status l = ''failed'' \<longrightarrow> wl_attempts l = 5)
        \<and> (wl_id l \<in> set (active s) \<longrightarrow> wl_attempts l \<le> 4)"
    by (simp_all add: delivery_invariant_def)
  have c1: "distinct (claims s')"
    by (rule distinct_sub [OF cl d])
  have ids: "wl_id ` set (webhook_logs (store s')) = wl_id ` set (webhook_logs (store s))"
    unfolding logs by (rule ids_update [OF gid])
  have c2: "set (claims s') \<subseteq> wl_id ` set (webhook_logs (store s'))"
    using set_sub [OF cl] sub by (simp add: ids)
  have c3: "\<forall>t \<in> set (tasks s'). task_ok t"
    using tk tok by blast
  have c4: "wl_attempts r \<le> 5 \<and> (wl_status r = ''failed'' \<longrightarrow> wl_attempts r = 5)
        \<and> (wl_id r \<in> set (active s') \<longrightarrow> wl_attempts r \<le> 4)"
    if r: "r \<in> set (webhook_logs (store s'))" for r
  proof -
    from r obtain l where l: "l \<in> set (webhook_logs (store s))"
      and rl: "r = (if wl_id l = lid then g l else l)"
      unfolding logs by auto
    show ?thesis
    proof (cases "wl_id l = lid")
      case True
      then have "r = g l" "wl_id r = lid" using rl gid by simp_all
      then show ?thesis using rows [OF l True] by simp
    next
      case False
      then have same: "r = l" using rl by simp
      have "wl_id l \<in> set (active s') \<Longrightarrow> wl_id l \<in> set (active s)"
        using ac False by auto
      then show ?thesis using old [OF l] same by blast
    qed
  qed
  from c1 c2 c3 c4 show ?thesis
    by (simp add: delivery_invariant_def)
qed

lemma invariant_same_logs:
  assumes inv: "delivery_invariant s"
    and logs: "webhook_logs (store s') = webhook_logs (store s)"
    and cl: "mset (claims s') \<subseteq># mset (claims s)"
    and ac: "set (active s') \<subseteq> set (active s)"
    and tk: "\<And>t. t \<in> set (tasks s') \<Longrightarrow> t \<in> set (tasks s) \<or> task_ok t"
  shows "delivery_invariant s'"
proof (rule invariant_update [OF inv _ _ cl _ tk, where lid = "[]" and g = "\<lambda>l. l"])
  show "webhook_logs (store s')
      = map (\<lambda>l. if wl_id l = [] then l else l) (webhook_logs (store s))"
    by (simp add: logs)
  show "set (active s') \<subseteq> insert [] (set (active s))"
    using ac by auto
  fix l assume "l \<in> set (webhook_logs (store s))" "wl_id l = []"
  then show "wl_attempts l \<le> 5 \<and> (wl_status l = ''failed'' \<longrightarrow> wl_attempts l = 5)
        \<and> ([] \<in> set (active s') \<longrightarrow> wl_attempts l \<le> 4)"
    using inv ac by (auto simp: delivery_invariant_def)
qed simp_all

lemma invariant_insert:
  assumes inv: "delivery_invariant s"
    and logs: "webhook_logs (store s') = webhook_logs (store s) @ [nl]"
    and fresh: "wl_id nl \<notin> wl_id ` set (webhook_logs (store s))"
    and new: "wl_attempts nl \<le> 4" "wl_status nl \<noteq> ''failed''"
    and cl: "mset (claims s') \<subseteq># add_mset (wl_id nl) (mset (claims s))"
    and ac: "set (active s') \<subseteq> insert (wl_id nl) (set (active s))"
    and tk: "\<And>t. t \<in> set (tasks s') \<Longrightarrow> t \<in> set (tasks s) \<or> task_ok t"
  shows "delivery_invariant s'"
proof -
  from inv have d: "distinct (claims s)"
    and sub: "set (claims s) \<subseteq> wl_id ` set (webhook_logs (store s))"
    and tok: "\<And>t. t \<in> set (tasks s) \<Longrightarrow> task_ok t"
    and old: "\<And>l. l \<in> set (webhook_logs (store s)) \<Longrightarrow>
        wl_attempts l \<le> 5 \<and> (wl_status l = ''failed'' \<longrightarrow> wl_attempts l = 5)
        \<and> (wl_id l \<in> set (active s) \<longrightarrow> wl_attempts l \<le> 4)"
    by (simp_all add: delivery_invariant_def)
  have nc: "wl_id nl \<notin> set (claims s)"
    using fresh sub by blast
  have cl': "mset (claims s') \<subseteq># mset (wl_id nl # claims s)"
    using cl by simp
  have c1: "distinct (claims s')"
    by (rule distinct_sub [OF cl']) (simp add: d nc)
  have c2: "set (claims s') \<subseteq> wl_id ` set (webhook_logs (store s'))"
    using set_sub [OF cl'] sub by (auto simp: logs)
  have c3: "\<forall>t \<in> set (tasks s'). task_ok t"
    using tk tok by blast
  have c4: "wl_attempts r \<le> 5 \<and> (wl_status r = ''failed'' \<longrightarrow> wl_attempts r = 5)
        \<and> (wl_id r \<in> set (active s') \<longrightarrow> wl_attempts r \<le> 4)"
    if r: "r \<in> set (webhook_logs (store s'))" for r
  proof (cases "r = nl")
    case True
    then show ?thesis using new by simp
  next
    case False
    with r have l: "r \<in> set (webhook_logs (store s))" by (simp add: logs)
    then have "wl_id r \<noteq> wl_id nl" using fresh by (metis imageI)
    then have "wl_id r \<in> set (active s') \<Longrightarrow> wl_id r \<in> set (active s)"
      using ac by auto
    then show ?thesis using old [OF l] by blast
  qed
  from c1 c2 c3 c4 show ?thesis
    by (simp add: delivery_invariant_def)
qed

subsection \<open>Claims after a statement of a task\<close>

lemma claims_removed:
  assumes "k < length (tasks s)" "webhookQueue w' = webhookQueue (store s)"
  shows "mset (claims \<lparr>store = w', tasks = take k (tasks s) @ drop (Suc k) (tasks s)\<rparr>)
           + mset (named (task_claim (tasks s ! k)))
       = mset (claims s)"
  using mset_concat_remove [OF assms(1), of "\<lambda>t. named (task_claim t)"]
  by (simp add: claims_def assms(2) add.assoc)

lemma claims_replaced:
  assumes "k < length (tasks s)" "webhookQueue w' = webhookQueue (store s)"
  shows "mset (claims \<lparr>store = w', tasks = (tasks s)[k := t]\<rparr>)
           + mset (named (task_claim (tasks s ! k)))
       = mset (claims s) + mset (named (task_claim t))"
  using mset_concat_update [OF assms(1), of "\<lambda>t. named (task_claim t)" t]
  by (simp add: claims_def assms(2) add.assoc)

lemma claims_moved:
  assumes "k < length (tasks s)" "webhookQueue w' = webhookQueue (store s) @ [j]"
  shows "mset (claims \<lparr>store = w', tasks = take k (tasks s) @ drop (Suc k) (tasks s)\<rparr>)
           + mset (named (task_claim (tasks s ! k)))
       = mset (claims s) + mset (named (job_claim j))"
  using mset_concat_remove [OF assms(1), of "\<lambda>t. named (task_claim t)"]
  by (simp add: claims_def assms(2) add.assoc)

lemma active_removed:
  assumes "webhookQueue w' = webhookQueue (store s)"
  shows "set (active \<lparr>store = w', tasks = take k (tasks s) @ drop (Suc k) (tasks s)\<rparr>)
       \<subseteq> set (active s)"
  using set_concat_remove [of "\<lambda>t. named (active_claim t)" k "tasks s"]
  by (auto simp: active_def assms)

lemma active_replaced:
  assumes "webhookQueue w' = webhookQueue (store s)"
  shows "set (active \<lparr>store = w', tasks = (tasks s)[k := t]\<rparr>)
       \<subseteq> set (named (active_claim t)) \<union> set (active s)"
  using set_concat_update [of "\<lambda>t. named (active_claim t)" "tasks s" k t]
  by (auto simp: active_def assms)

lemma active_moved:
  assumes "webhookQueue w' = webhookQueue (store s) @ [j]"
  shows "set (active \<lparr>store = w', tasks = take k (tasks s) @ drop (Suc k) (tasks s)\<rparr>)
       \<subseteq> set (named (job_claim j)) \<union> set (active s)"
  using set_concat_remove [of "\<lambda>t. named (active_claim t)" k "tasks s"]
  by (auto simp: active_def assms)

lemma active_member:
  assumes "k < length (tasks s)" "active_claim (tasks s ! k) = Some a"
  shows "a \<in> set (active s)"
proof -
  have "tasks s ! k \<in> set (tasks s)" using assms(1) by simp
  moreover have "a \<in> set (named (active_claim (tasks s ! k)))"
    by (simp add: assms(2) named_def)
  ultimately show ?thesis
    by (auto simp: active_def)
qed

lemma tasks_removed:
  "t \<in> set (take k ts @ drop (Suc k) ts) \<Longrightarrow> t \<in> set ts"
  using set_take_subset [of k ts] set_drop_subset [of "Suc k" ts] by auto

lemma tasks_replaced:
  "t \<in> set (ts[k := t']) \<Longrightarrow> t \<in> set ts \<or> t = t'"
  using set_update_subset_insert [of ts k t'] by auto

lemma task_at_Some: "task_at s k = Some t \<longleftrightarrow> k < length (tasks s) \<and> tasks s ! k = t"
  by (auto simp: task_at_def)

lemma advance_None:
  "advance k (None, w') s = \<lparr>store = w', tasks = take k (tasks s) @ drop (Suc k) (tasks s)\<rparr>"
  by (simp add: advance_def)

lemma advance_Some:
  "advance k (Some t, w') s = \<lparr>store = w', tasks = (tasks s)[k := t]\<rparr>"
  by (simp add: advance_def)

text \<open>A task that ends, in a store with the same queue and the same logs.\<close>

lemma invariant_task_over:
  assumes inv: "delivery_invariant s" and k: "k < length (tasks s)"
    and q: "webhookQueue w' = webhookQueue (store s)"
    and l: "webhook_logs w' = webhook_logs (store s)"
  shows "delivery_invariant (advance k (None, w') s)"
  unfolding advance_None
proof (rule invariant_same_logs [OF inv])
  let ?s' = "\<lparr>store = w', tasks = take k (tasks s) @ drop (Suc k) (tasks s)\<rparr>"
  show "webhook_logs (store ?s') = webhook_logs (store s)"
    by (simp add: l)
  show "mset (claims ?s') \<subseteq># mset (claims s)"
    using claims_removed [OF k q] by (metis mset_subset_eq_add_left)
  show "set (active ?s') \<subseteq> set (active s)"
    by (rule active_removed [OF q])
  fix t assume "t \<in> set (tasks ?s')"
  then have "t \<in> set (take k (tasks s) @ drop (Suc k) (tasks s))" by simp
  then have "t \<in> set (tasks s)" by (rule tasks_removed)
  then show "t \<in> set (tasks s) \<or> task_ok t" ..
qed

text \<open>A task that goes on with the same claim, in a store with the same queue and logs.\<close>

lemma invariant_task_on:
  assumes inv: "delivery_invariant s" and k: "k < length (tasks s)"
    and q: "webhookQueue w' = webhookQueue (store s)"
    and l: "webhook_logs w' = webhook_logs (store s)"
    and c: "task_claim t = task_claim (tasks s ! k)"
    and a: "active_claim t = active_claim (tasks s ! k)"
    and ok: "task_ok t"
  shows "delivery_invariant (advance k (Some t, w') s)"
  unfolding advance_Some
proof (rule invariant_same_logs [OF inv])
  let ?s' = "\<lparr>store = w', tasks = (tasks s)[k := t]\<rparr>"
  show "webhook_logs (store ?s') = webhook_logs (store s)"
    by (simp add: l)
  show "mset (claims ?s') \<subseteq># mset (claims s)"
    using claims_replaced [OF k q, of t] by (simp add: c)
  have "set (named (active_claim t)) \<subseteq> set (active s)"
  proof (cases "active_claim t")
    case None
    then show ?thesis by (simp add: named_def)
  next
    case (Some x)
    then have "x \<in> set (active s)"
      using active_member [OF k] a by simp
    then show ?thesis by (simp add: Some named_def)
  qed
  then show "set (active ?s') \<subseteq> set (active s)"
    using active_replaced [OF q, of k t] by blast
  fix t' assume "t' \<in> set (tasks ?s')"
  then have "t' \<in> set ((tasks s)[k := t])" by simp
  then have "t' \<in> set (tasks s) \<or> t' = t" by (rule tasks_replaced)
  then show "t' \<in> set (tasks s) \<or> task_ok t'" using ok by blast
qed

lemma released:
  assumes "mset xs + mset (named (Some a)) = mset ys" "distinct ys"
  shows "a \<notin> set xs"
proof
  assume "a \<in> set xs"
  then have 1: "0 < count (mset xs) a" by simp
  have 2: "count (mset xs) a + 1 = count (mset ys) a"
    using arg_cong [OF assms(1), of "\<lambda>M. count M a"] by (simp add: named_def)
  have 3: "count (mset ys) a \<le> 1"
    using assms(2) by (simp add: distinct_count_atmost_1)
  from 1 2 3 show False by linarith
qed

lemma sub_add:
  fixes X Y :: "'a multiset"
  assumes "X \<subseteq># Y"
  shows "X \<subseteq># add_mset a Y"
proof -
  have "Y \<subseteq># add_mset a Y" by simp
  with assms show ?thesis by (rule subset_mset.order_trans)
qed

lemma sub_from_eq:
  fixes X Y A B :: "'a multiset"
  assumes "X + A = Y + B" "B \<subseteq># A"
  shows "X \<subseteq># Y"
proof -
  have "Y + B \<subseteq># Y + A"
    using assms(2) by simp
  then have "X + A \<subseteq># Y + A"
    by (simp only: assms(1))
  then show ?thesis by simp
qed

subsection \<open>Every event keeps the invariant\<close>

lemma invariant_Fanout:
  assumes inv: "delivery_invariant s"
  shows "delivery_invariant (step cfg (Fanout now_ms merchantId ev data) s)"
proof -
  let ?s' = "s\<lparr>store := enqueueWebhook now_ms merchantId ev data (store s)\<rparr>"
  have c: "claims ?s' = claims s" and a: "active ?s' = active s"
    by (simp_all add: claims_def active_def enqueueWebhook_def job_claim_def truthy_def named_def)
  have l: "webhook_logs (store ?s') = webhook_logs (store s)"
    by (simp add: enqueueWebhook_def)
  have t: "tasks ?s' = tasks s" by simp
  have "delivery_invariant ?s'"
  proof (rule invariant_same_logs [OF inv l])
    show "mset (claims ?s') \<subseteq># mset (claims s)" by (simp only: c subset_mset.order_refl)
    show "set (active ?s') \<subseteq> set (active s)" by (simp only: a subset_refl)
    fix t' assume "t' \<in> set (tasks ?s')"
    then show "t' \<in> set (tasks s) \<or> task_ok t'" by (simp only: t) simp
  qed
  then show ?thesis
    by (simp add: step_def)
qed

lemma invariant_Take:
  assumes inv: "delivery_invariant s"
  shows "delivery_invariant (step cfg (Take i) s)"
proof (cases "i < length (webhookQueue (store s))")
  case False
  then show ?thesis using inv by (simp add: step_def)
next
  case True
  let ?q = "webhookQueue (store s)"
  let ?s' = "\<lparr>store = (store s)\<lparr>webhookQueue := take i ?q @ drop (Suc i) ?q\<rparr>,
             tasks = tasks s @ [Taken (?q ! i)]\<rparr>"
  have st: "step cfg (Take i) s = ?s'"
    using True by (simp add: step_def)
  have c: "mset (claims ?s') = mset (claims s)"
    using mset_concat_remove [OF True, of "\<lambda>j. named (job_claim j)"]
    by (simp add: claims_def ac_simps)
  have "?q ! i \<in> set ?q" using True by simp
  then have "set (named (job_claim (?q ! i))) \<subseteq> set (active s)"
    by (auto simp: active_def)
  then have a: "set (active ?s') \<subseteq> set (active s)"
    using set_concat_remove [of "\<lambda>j. named (job_claim j)" i ?q]
    by (auto simp: active_def)
  have "delivery_invariant ?s'"
  proof (rule invariant_same_logs [OF inv])
    show "webhook_logs (store ?s') = webhook_logs (store s)" by simp
    show "mset (claims ?s') \<subseteq># mset (claims s)" by (simp only: c subset_mset.order_refl)
    show "set (active ?s') \<subseteq> set (active s)" by (rule a)
    fix t assume "t \<in> set (tasks ?s')"
    then have "t \<in> set (tasks s) \<or> t = Taken (?q ! i)" by auto
    then show "t \<in> set (tasks s) \<or> task_ok t" by auto
  qed
  then show ?thesis by (simp only: st)
qed

lemma invariant_ReadMerchant:
  assumes inv: "delivery_invariant s"
  shows "delivery_invariant (step cfg (ReadMerchant k) s)"
proof (cases "\<exists>job. task_at s k = Some (Taken job)")
  case False
  then have "step cfg (ReadMerchant k) s = s"
    by (simp add: step_def split: option.splits task.splits)
  then show ?thesis using inv by simp
next
  case True
  then obtain job where t: "task_at s k = Some (Taken job)" by blast
  then have k: "k < length (tasks s)" and tk: "tasks s ! k = Taken job"
    by (simp_all add: task_at_Some)
  have st: "step cfg (ReadMerchant k) s = advance k (read_merchant job (store s), store s) s"
    by (simp add: step_def t)
  show ?thesis
  proof (cases "read_merchant job (store s)")
    case None
    then show ?thesis
      using invariant_task_over [OF inv k, of "store s"] by (simp add: st)
  next
    case (Some t')
    then obtain m where t': "t' = Resolving job m"
      by (auto simp: read_merchant_def split: list.splits if_splits)
    have "delivery_invariant (advance k (Some (Resolving job m), store s) s)"
      by (rule invariant_task_on [OF inv k]) (simp_all add: tk)
    then show ?thesis
      by (simp add: st Some t')
  qed
qed

lemma invariant_AddJob:
  assumes inv: "delivery_invariant s"
  shows "delivery_invariant (step cfg (AddJob k) s)"
proof (cases "\<exists>job. task_at s k = Some (Adding job)")
  case False
  then have "step cfg (AddJob k) s = s"
    by (simp add: step_def split: option.splits task.splits)
  then show ?thesis using inv by simp
next
  case True
  then obtain job where t: "task_at s k = Some (Adding job)" by blast
  then have k: "k < length (tasks s)" and tk: "tasks s ! k = Adding job"
    by (simp_all add: task_at_Some)
  let ?s' = "\<lparr>store = add_job job (store s),
             tasks = take k (tasks s) @ drop (Suc k) (tasks s)\<rparr>"
  have st: "step cfg (AddJob k) s = ?s'"
    by (simp add: step_def t advance_None)
  have q: "webhookQueue (add_job job (store s)) = webhookQueue (store s) @ [job]"
    by (simp add: add_job_def)
  have "delivery_invariant ?s'"
  proof (rule invariant_same_logs [OF inv])
    show "webhook_logs (store ?s') = webhook_logs (store s)" by (simp add: add_job_def)
    show "mset (claims ?s') \<subseteq># mset (claims s)"
      using claims_moved [OF k q] by (simp add: tk)
    have "set (named (job_claim job)) \<subseteq> set (active s)"
    proof (cases "job_claim job")
      case None
      then show ?thesis by (simp add: named_def)
    next
      case (Some x)
      then have "x \<in> set (active s)" using active_member [OF k] tk by simp
      then show ?thesis by (simp add: Some named_def)
    qed
    then show "set (active ?s') \<subseteq> set (active s)"
      using active_moved [OF q, of k] by blast
    fix t' assume "t' \<in> set (tasks ?s')"
    then have "t' \<in> set (take k (tasks s) @ drop (Suc k) (tasks s))" by simp
    then have "t' \<in> set (tasks s)" by (rule tasks_removed)
    then show "t' \<in> set (tasks s) \<or> task_ok t'" ..
  qed
  then show ?thesis by (simp only: st)
qed

lemma invariant_RetryEnqueue:
  assumes inv: "delivery_invariant s"
  shows "delivery_invariant (step cfg (RetryEnqueue k) s)"
proof (cases "\<exists>m l. task_at s k = Some (Queueing m l)")
  case False
  then have "step cfg (RetryEnqueue k) s = s"
    by (simp add: step_def split: option.splits task.splits)
  then show ?thesis using inv by simp
next
  case True
  then obtain m l where t: "task_at s k = Some (Queueing m l)" by blast
  then have k: "k < length (tasks s)" and tk: "tasks s ! k = Queueing m l"
    by (simp_all add: task_at_Some)
  let ?j = "\<lparr>job_webhookLogId = Some (wl_id l), job_merchantId = mer_id m,
            job_event = wl_event l, job_payload = wl_payload l, job_delay = 0\<rparr>"
  let ?s' = "\<lparr>store = retry_enqueue m l (store s),
             tasks = take k (tasks s) @ drop (Suc k) (tasks s)\<rparr>"
  have st: "step cfg (RetryEnqueue k) s = ?s'"
    by (simp add: step_def t advance_None)
  have q: "webhookQueue (retry_enqueue m l (store s)) = webhookQueue (store s) @ [?j]"
    by (simp add: retry_enqueue_def)
  have jc: "set (named (job_claim ?j)) \<subseteq> {wl_id l}"
    by (simp add: job_claim_def named_def)
  have mc: "mset (named (job_claim ?j)) \<subseteq># mset (named (Some (wl_id l)))"
    by (simp add: job_claim_def named_def)
  have "delivery_invariant ?s'"
  proof (rule invariant_same_logs [OF inv])
    show "webhook_logs (store ?s') = webhook_logs (store s)" by (simp add: retry_enqueue_def)
    have "mset (claims ?s') + mset (named (Some (wl_id l)))
        = mset (claims s) + mset (named (job_claim ?j))"
      using claims_moved [OF k q] by (simp add: tk)
    then show "mset (claims ?s') \<subseteq># mset (claims s)"
      using mc by (rule sub_from_eq)
    have "wl_id l \<in> set (active s)" using active_member [OF k] tk by simp
    then show "set (active ?s') \<subseteq> set (active s)"
      using active_moved [OF q, of k] jc by blast
    fix t' assume "t' \<in> set (tasks ?s')"
    then have "t' \<in> set (take k (tasks s) @ drop (Suc k) (tasks s))" by simp
    then have "t' \<in> set (tasks s)" by (rule tasks_removed)
    then show "t' \<in> set (tasks s) \<or> task_ok t'" ..
  qed
  then show ?thesis by (simp only: st)
qed

lemma filter_id_head:
  assumes "filter (\<lambda>l. wl_id l = lid) ls = l # rest"
  shows "l \<in> set ls" "wl_id l = lid"
proof -
  have "l \<in> set (filter (\<lambda>l. wl_id l = lid) ls)"
    by (simp add: assms)
  then show "l \<in> set ls" "wl_id l = lid" by simp_all
qed

lemma invariant_ResolveLog:
  assumes inv: "delivery_invariant s"
  shows "delivery_invariant (step cfg (ResolveLog k now new_id) s)"
proof (cases "\<exists>job m. task_at s k = Some (Resolving job m)")
  case False
  then have "step cfg (ResolveLog k now new_id) s = s"
    by (simp add: step_def split: option.splits task.splits)
  then show ?thesis using inv by simp
next
  case True
  then obtain job m where t: "task_at s k = Some (Resolving job m)" by blast
  then have k: "k < length (tasks s)" and tk: "tasks s ! k = Resolving job m"
    by (simp_all add: task_at_Some)
  let ?w = "store s"
  have st: "step cfg (ResolveLog k now new_id) s = advance k (resolve_log now new_id job m ?w) s"
    by (simp add: step_def t)
  show ?thesis
  proof (cases "truthy (job_webhookLogId job)")
    case named: True
    then have jc: "job_claim job = Some (the (job_webhookLogId job))"
      by (auto simp: job_claim_def truthy_def split: option.splits)
    show ?thesis
    proof (cases "filter (\<lambda>l. wl_id l = the (job_webhookLogId job)) (webhook_logs ?w)")
      case Nil
      then have "resolve_log now new_id job m ?w = (None, ?w)"
        using named by (simp add: resolve_log_def)
      then show ?thesis
        using invariant_task_over [OF inv k, of ?w] by (simp add: st)
    next
      case (Cons l rest)
      note found = filter_id_head [OF Cons]
      show ?thesis
      proof (cases "mer_webhook_secret m = None")
        case True
        then have "resolve_log now new_id job m ?w = (None, ?w)"
          using named Cons by (simp add: resolve_log_def)
        then show ?thesis
          using invariant_task_over [OF inv k, of ?w] by (simp add: st)
      next
        case False
        then have r: "resolve_log now new_id job m ?w = (Some (Posting job l now), ?w)"
          using named Cons by (simp add: resolve_log_def)
        have "wl_id l \<in> set (active s)"
          using active_member [OF k] tk jc found(2) by simp
        then have "wl_attempts l \<le> 4"
          using inv found(1) by (simp add: delivery_invariant_def)
        then have "delivery_invariant (advance k (Some (Posting job l now), ?w) s)"
          by (intro invariant_task_on [OF inv k]) (simp_all add: tk jc found(2))
        then show ?thesis
          by (simp add: st r)
      qed
    qed
  next
    case unnamed: False
    then have jc: "job_claim job = None"
      by (simp add: job_claim_def)
    show ?thesis
    proof (cases "new_id \<in> set (map wl_id (webhook_logs ?w))")
      case True
      then have "resolve_log now new_id job m ?w = (None, ?w)"
        using unnamed by (simp add: resolve_log_def)
      then show ?thesis
        using invariant_task_over [OF inv k, of ?w] by (simp add: st)
    next
      case False
      let ?nl = "new_webhook_log new_id now (job_merchantId job) (job_event job) (job_payload job)"
      let ?w1 = "?w\<lparr>webhook_logs := webhook_logs ?w @ [?nl]\<rparr>"
      have q: "webhookQueue ?w1 = webhookQueue ?w" by simp
      have nl: "wl_id ?nl = new_id" "wl_attempts ?nl \<le> 4" "wl_status ?nl \<noteq> ''failed''"
        by (simp_all add: new_webhook_log_def)
      have fresh: "wl_id ?nl \<notin> wl_id ` set (webhook_logs ?w)"
        using False by (simp add: nl(1))
      show ?thesis
      proof (cases "mer_webhook_secret m = None")
        case True
        then have r: "resolve_log now new_id job m ?w = (None, ?w1)"
          using unnamed False by (simp add: resolve_log_def Let_def)
        let ?s' = "\<lparr>store = ?w1, tasks = take k (tasks s) @ drop (Suc k) (tasks s)\<rparr>"
        have "delivery_invariant ?s'"
        proof (rule invariant_insert [OF inv _ fresh nl(2,3)])
          show "webhook_logs (store ?s') = webhook_logs (store s) @ [?nl]" by simp
          have "mset (claims ?s') \<subseteq># mset (claims s)"
            using claims_removed [OF k q] by (metis mset_subset_eq_add_left)
          then show "mset (claims ?s') \<subseteq># add_mset (wl_id ?nl) (mset (claims s))"
            by (rule sub_add)
          show "set (active ?s') \<subseteq> insert (wl_id ?nl) (set (active s))"
            using active_removed [OF q, of k] by blast
          fix t' assume "t' \<in> set (tasks ?s')"
          then have "t' \<in> set (take k (tasks s) @ drop (Suc k) (tasks s))" by simp
          then have "t' \<in> set (tasks s)" by (rule tasks_removed)
          then show "t' \<in> set (tasks s) \<or> task_ok t'" ..
        qed
        then show ?thesis
          by (simp add: st r advance_None)
      next
        case secret: False
        then have r: "resolve_log now new_id job m ?w = (Some (Posting job ?nl now), ?w1)"
          using unnamed False by (simp add: resolve_log_def Let_def)
        let ?s' = "\<lparr>store = ?w1, tasks = (tasks s)[k := Posting job ?nl now]\<rparr>"
        have "delivery_invariant ?s'"
        proof (rule invariant_insert [OF inv _ fresh nl(2,3)])
          show "webhook_logs (store ?s') = webhook_logs (store s) @ [?nl]" by simp
          have "mset (claims ?s') = mset (claims s) + mset (named (Some (wl_id ?nl)))"
            using claims_replaced [OF k q, of "Posting job ?nl now"]
            by (simp add: tk jc named_def)
          then show "mset (claims ?s') \<subseteq># add_mset (wl_id ?nl) (mset (claims s))"
            by (simp add: named_def)
          show "set (active ?s') \<subseteq> insert (wl_id ?nl) (set (active s))"
            using active_replaced [OF q, of k "Posting job ?nl now"] by (auto simp: named_def)
          fix t' assume "t' \<in> set (tasks ?s')"
          then have "t' \<in> set ((tasks s)[k := Posting job ?nl now])" by simp
          then have "t' \<in> set (tasks s) \<or> t' = Posting job ?nl now" by (rule tasks_replaced)
          then show "t' \<in> set (tasks s) \<or> task_ok t'" using nl(2) by auto
        qed
        then show ?thesis
          by (simp add: st r advance_Some)
      qed
    qed
  qed
qed

lemma invariant_Settle:
  assumes inv: "delivery_invariant s"
  shows "delivery_invariant (step cfg (Settle k outcome retry_ms) s)"
proof (cases "\<exists>job l now. task_at s k = Some (Posting job l now)")
  case False
  then have "step cfg (Settle k outcome retry_ms) s = s"
    by (simp add: step_def split: option.splits task.splits)
  then show ?thesis using inv by simp
next
  case True
  then obtain job l now where t: "task_at s k = Some (Posting job l now)" by blast
  then have k: "k < length (tasks s)" and tk: "tasks s ! k = Posting job l now"
    by (simp_all add: task_at_Some)
  let ?w = "store s"
  let ?lid = "wl_id l"
  have st: "step cfg (Settle k outcome retry_ms) s
      = advance k (settle cfg outcome retry_ms job l now ?w) s"
    by (simp add: step_def t)
  have "Posting job l now \<in> set (tasks s)"
    using k tk by (metis nth_mem)
  then have snap: "wl_attempts l \<le> 4"
    using inv by (auto simp: delivery_invariant_def)
  have act: "?lid \<in> set (active s)"
    using active_member [OF k] tk by simp
  have rows4: "wl_attempts r \<le> 4" if "r \<in> set (webhook_logs ?w)" "wl_id r = ?lid" for r
    using inv act that by (simp add: delivery_invariant_def)
  have d: "distinct (claims s)"
    using inv by (simp add: delivery_invariant_def)
  text \<open>The task ends: its claim is released.\<close>
  have over: "delivery_invariant \<lparr>store = w', tasks = take k (tasks s) @ drop (Suc k) (tasks s)\<rparr>"
    if q: "webhookQueue w' = webhookQueue ?w"
      and logs: "webhook_logs w' = map (\<lambda>r. if wl_id r = ?lid then g r else r) (webhook_logs ?w)"
      and gid: "\<And>r. wl_id (g r) = wl_id r"
      and g5: "\<And>r. r \<in> set (webhook_logs ?w) \<Longrightarrow> wl_id r = ?lid \<Longrightarrow>
          wl_attempts (g r) \<le> 5 \<and> (wl_status (g r) = ''failed'' \<longrightarrow> wl_attempts (g r) = 5)"
    for w' g
  proof -
    let ?s' = "\<lparr>store = w', tasks = take k (tasks s) @ drop (Suc k) (tasks s)\<rparr>"
    have eq: "mset (claims ?s') + mset (named (Some ?lid)) = mset (claims s)"
      using claims_removed [OF k q] by (simp add: tk)
    have gone: "?lid \<notin> set (active ?s')"
      using released [OF eq d] active_sub_claims [of ?s'] by blast
    show ?thesis
    proof (rule invariant_update [OF inv _ gid, where lid = ?lid])
      show "webhook_logs (store ?s')
          = map (\<lambda>r. if wl_id r = ?lid then g r else r) (webhook_logs (store s))"
        by (simp add: logs)
      show "mset (claims ?s') \<subseteq># mset (claims s)"
        using eq by (metis mset_subset_eq_add_left)
      show "set (active ?s') \<subseteq> insert ?lid (set (active s))"
        using active_removed [OF q, of k] by blast
      show "t' \<in> set (tasks s) \<or> task_ok t'" if "t' \<in> set (tasks ?s')" for t'
      proof -
        from that have "t' \<in> set (take k (tasks s) @ drop (Suc k) (tasks s))" by simp
        then have "t' \<in> set (tasks s)" by (rule tasks_removed)
        then show ?thesis ..
      qed
      show "wl_attempts (g r) \<le> 5 \<and> (wl_status (g r) = ''failed'' \<longrightarrow> wl_attempts (g r) = 5)
          \<and> (?lid \<in> set (active ?s') \<longrightarrow> wl_attempts (g r) \<le> 4)"
        if "r \<in> set (webhook_logs (store s))" "wl_id r = ?lid" for r
        using g5 [OF that] gone by blast
    qed
  qed
  show ?thesis
  proof (cases outcome)
    case (Resolved status data)
    let ?body = "substring0 1000 (JSON_stringify data)"
    let ?w' = "?w\<lparr>webhook_logs := log_success now status ?body ?lid (webhook_logs ?w)\<rparr>"
    have r: "settle cfg outcome retry_ms job l now ?w = (None, ?w')"
      by (simp add: settle_def Resolved)
    have "delivery_invariant \<lparr>store = ?w', tasks = take k (tasks s) @ drop (Suc k) (tasks s)\<rparr>"
    proof (rule over)
      show "webhookQueue ?w' = webhookQueue ?w" by simp
      show "webhook_logs ?w' = map (\<lambda>r. if wl_id r = ?lid
               then r\<lparr>wl_status := ''success'', wl_attempts := wl_attempts r + 1,
                      wl_last_attempt_at := Some now, wl_response_code := Some status,
                      wl_response_body := Some ?body\<rparr>
               else r) (webhook_logs ?w)"
        by (simp add: log_success_def)
    next
      fix r assume "r \<in> set (webhook_logs ?w)" "wl_id r = ?lid"
      then have "wl_attempts r \<le> 4" by (rule rows4)
      then show "wl_attempts (r\<lparr>wl_status := ''success'', wl_attempts := wl_attempts r + 1,
                      wl_last_attempt_at := Some now, wl_response_code := Some status,
                      wl_response_body := Some ?body\<rparr>) \<le> 5
          \<and> (wl_status (r\<lparr>wl_status := ''success'', wl_attempts := wl_attempts r + 1,
                      wl_last_attempt_at := Some now, wl_response_code := Some status,
                      wl_response_body := Some ?body\<rparr>) = ''failed''
               \<longrightarrow> wl_attempts (r\<lparr>wl_status := ''success'', wl_attempts := wl_attempts r + 1,
                      wl_last_attempt_at := Some now, wl_response_code := Some status,
                      wl_response_body := Some ?body\<rparr>) = 5)"
        by simp
    qed simp
    then show ?thesis
      by (simp add: st r advance_None)
  next
    case (Rejected code message)
    let ?a = "wl_attempts l + 1"
    show ?thesis
    proof (cases "?a \<ge> 5")
      case True
      with snap have five: "?a = 5" by simp
      let ?w' = "?w\<lparr>webhook_logs :=
          log_failed ?a now (responseCode code) message ?lid (webhook_logs ?w)\<rparr>"
      have r: "settle cfg outcome retry_ms job l now ?w = (None, ?w')"
        using True by (simp add: settle_def Rejected Let_def)
      have "delivery_invariant \<lparr>store = ?w', tasks = take k (tasks s) @ drop (Suc k) (tasks s)\<rparr>"
      proof (rule over)
        show "webhookQueue ?w' = webhookQueue ?w" by simp
        show "webhook_logs ?w' = map (\<lambda>r. if wl_id r = ?lid
               then r\<lparr>wl_status := ''failed'', wl_attempts := ?a,
                      wl_last_attempt_at := Some now, wl_response_code := Some (responseCode code),
                      wl_response_body := Some message\<rparr>
               else r) (webhook_logs ?w)"
          by (simp add: log_failed_def)
      next
        fix r
        show "wl_attempts (r\<lparr>wl_status := ''failed'', wl_attempts := ?a,
                      wl_last_attempt_at := Some now, wl_response_code := Some (responseCode code),
                      wl_response_body := Some message\<rparr>) \<le> 5
          \<and> (wl_status (r\<lparr>wl_status := ''failed'', wl_attempts := ?a,
                      wl_last_attempt_at := Some now, wl_response_code := Some (responseCode code),
                      wl_response_body := Some message\<rparr>) = ''failed''
               \<longrightarrow> wl_attempts (r\<lparr>wl_status := ''failed'', wl_attempts := ?a,
                      wl_last_attempt_at := Some now, wl_response_code := Some (responseCode code),
                      wl_response_body := Some message\<rparr>) = 5)"
          using five by simp
      qed simp
      then show ?thesis
        by (simp add: st r advance_None)
    next
      case False
      then have four: "?a \<le> 4" by simp
      let ?delay = "nextRetryDelay cfg ?a"
      let ?j = "\<lparr>job_webhookLogId = Some ?lid, job_merchantId = job_merchantId job,
                job_event = job_event job, job_payload = job_payload job, job_delay = ?delay\<rparr>"
      let ?g = "\<lambda>r. r\<lparr>wl_status := ''pending'', wl_attempts := ?a,
                      wl_last_attempt_at := Some now, wl_next_retry_at := Some (retry_ms + ?delay),
                      wl_response_code := Some (responseCode code),
                      wl_response_body := Some message\<rparr>"
      let ?w' = "?w\<lparr>webhook_logs :=
          log_retry ?a now (retry_ms + ?delay) (responseCode code) message ?lid (webhook_logs ?w)\<rparr>"
      have r: "settle cfg outcome retry_ms job l now ?w = (Some (Adding ?j), ?w')"
        using False by (simp add: settle_def Rejected Let_def)
      let ?s' = "\<lparr>store = ?w', tasks = (tasks s)[k := Adding ?j]\<rparr>"
      have q: "webhookQueue ?w' = webhookQueue ?w" by simp
      have mc: "mset (named (job_claim ?j)) \<subseteq># mset (named (Some ?lid))"
        by (simp add: job_claim_def named_def)
      have sc: "set (named (job_claim ?j)) \<subseteq> {?lid}"
        by (simp add: job_claim_def named_def)
      have "delivery_invariant ?s'"
      proof (rule invariant_update [OF inv, where lid = ?lid and g = ?g])
        show "webhook_logs (store ?s')
            = map (\<lambda>r. if wl_id r = ?lid then ?g r else r) (webhook_logs (store s))"
          by (simp add: log_retry_def)
        show "wl_id (?g r) = wl_id r" for r by simp
        have "mset (claims ?s') + mset (named (Some ?lid))
            = mset (claims s) + mset (named (job_claim ?j))"
          using claims_replaced [OF k q, of "Adding ?j"] by (simp add: tk)
        then show "mset (claims ?s') \<subseteq># mset (claims s)"
          using mc by (rule sub_from_eq)
        show "set (active ?s') \<subseteq> insert ?lid (set (active s))"
          using active_replaced [OF q, of k "Adding ?j"] sc by auto
        show "t' \<in> set (tasks s) \<or> task_ok t'" if "t' \<in> set (tasks ?s')" for t'
        proof -
          from that have "t' \<in> set ((tasks s)[k := Adding ?j])" by simp
          then have "t' \<in> set (tasks s) \<or> t' = Adding ?j" by (rule tasks_replaced)
          then show ?thesis by auto
        qed
        show "wl_attempts (?g r) \<le> 5 \<and> (wl_status (?g r) = ''failed'' \<longrightarrow> wl_attempts (?g r) = 5)
            \<and> (?lid \<in> set (active ?s') \<longrightarrow> wl_attempts (?g r) \<le> 4)" for r
          using four by simp
      qed
      then show ?thesis
        by (simp add: st r advance_Some)
    qed
  qed
qed

lemma retry_lookup_Inr:
  assumes "retry_lookup m webhookId w = Inr l"
  shows "uuid_in webhookId = Some (wl_id l)" "l \<in> set (webhook_logs w)"
proof -
  from assms obtain u rest where u: "uuid_in webhookId = Some u"
    and f: "webhook_logs_of w u (mer_id m) = l # rest"
    by (auto simp: retry_lookup_def split: option.splits list.splits)
  have "l \<in> set (webhook_logs_of w u (mer_id m))"
    by (simp add: f)
  then have "l \<in> set (webhook_logs w)" "wl_id l = u"
    by (simp_all add: webhook_logs_of_def)
  then show "uuid_in webhookId = Some (wl_id l)" "l \<in> set (webhook_logs w)"
    using u by simp_all
qed

lemma invariant_RetryLookup:
  assumes inv: "delivery_invariant s" and ok: "retry_allowed (RetryLookup m webhookId) s"
  shows "delivery_invariant (step cfg (RetryLookup m webhookId) s)"
proof (cases "retry_lookup m webhookId (store s)")
  case (Inl answer)
  then show ?thesis using inv by (simp add: step_def)
next
  case (Inr l)
  note read = retry_lookup_Inr [OF Inr]
  let ?s' = "s\<lparr>tasks := tasks s @ [Retrying m webhookId l]\<rparr>"
  have st: "step cfg (RetryLookup m webhookId) s = ?s'"
    by (simp add: step_def Inr)
  have free: "wl_id l \<notin> set (claims s)"
    using ok read(1) by (simp add: retry_allowed_def)
  have c: "claims ?s' = claims s @ [wl_id l]"
    by (simp add: claims_def named_def)
  have a: "active ?s' = active s"
    by (simp add: active_def named_def)
  from inv have d: "distinct (claims s)"
    and sub: "set (claims s) \<subseteq> wl_id ` set (webhook_logs (store s))"
    and tok: "\<forall>t \<in> set (tasks s). task_ok t"
    and old: "\<forall>r \<in> set (webhook_logs (store s)).
        wl_attempts r \<le> 5 \<and> (wl_status r = ''failed'' \<longrightarrow> wl_attempts r = 5)
        \<and> (wl_id r \<in> set (active s) \<longrightarrow> wl_attempts r \<le> 4)"
    by (simp_all add: delivery_invariant_def)
  have c1: "distinct (claims ?s')"
    using d free by (simp add: c)
  have c2: "set (claims ?s') \<subseteq> wl_id ` set (webhook_logs (store ?s'))"
    using sub read(2) by (auto simp: c)
  have c3: "\<forall>t \<in> set (tasks ?s'). task_ok t"
    using tok read(1) by simp
  have c4: "\<forall>r \<in> set (webhook_logs (store ?s')).
        wl_attempts r \<le> 5 \<and> (wl_status r = ''failed'' \<longrightarrow> wl_attempts r = 5)
        \<and> (wl_id r \<in> set (active ?s') \<longrightarrow> wl_attempts r \<le> 4)"
    using old by (simp only: a) simp
  from c1 c2 c3 c4 have "delivery_invariant ?s'"
    unfolding delivery_invariant_def by blast
  then show ?thesis by (simp only: st)
qed

lemma invariant_RetryReset:
  assumes inv: "delivery_invariant s"
  shows "delivery_invariant (step cfg (RetryReset k db_now) s)"
proof (cases "\<exists>m webhookId l. task_at s k = Some (Retrying m webhookId l)")
  case False
  then have "step cfg (RetryReset k db_now) s = s"
    by (simp add: step_def split: option.splits task.splits)
  then show ?thesis using inv by simp
next
  case True
  then obtain m webhookId l where t: "task_at s k = Some (Retrying m webhookId l)" by blast
  then have k: "k < length (tasks s)" and tk: "tasks s ! k = Retrying m webhookId l"
    by (simp_all add: task_at_Some)
  let ?w = "store s"
  let ?lid = "wl_id l"
  let ?g = "\<lambda>r. r\<lparr>wl_attempts := 0, wl_status := ''pending'', wl_next_retry_at := Some db_now\<rparr>"
  have "Retrying m webhookId l \<in> set (tasks s)"
    using k tk by (metis nth_mem)
  then have u: "uuid_in webhookId = Some ?lid"
    using inv by (auto simp: delivery_invariant_def)
  let ?w' = "retry_reset webhookId db_now ?w"
  let ?s' = "\<lparr>store = ?w', tasks = (tasks s)[k := Queueing m l]\<rparr>"
  have st: "step cfg (RetryReset k db_now) s = ?s'"
    by (simp add: step_def t advance_Some)
  have q: "webhookQueue ?w' = webhookQueue ?w"
    by (simp add: retry_reset_def u)
  have "delivery_invariant ?s'"
  proof (rule invariant_update [OF inv, where lid = ?lid and g = ?g])
    show "webhook_logs (store ?s')
        = map (\<lambda>r. if wl_id r = ?lid then ?g r else r) (webhook_logs (store s))"
      by (simp add: retry_reset_def u)
    show "wl_id (?g r) = wl_id r" for r by simp
    have "mset (claims ?s') + mset (named (Some ?lid)) = mset (claims s) + mset (named (Some ?lid))"
      using claims_replaced [OF k q, of "Queueing m l"] by (simp add: tk)
    then show "mset (claims ?s') \<subseteq># mset (claims s)"
      by simp
    show "set (active ?s') \<subseteq> insert ?lid (set (active s))"
      using active_replaced [OF q, of k "Queueing m l"] by (auto simp: named_def)
    show "t' \<in> set (tasks s) \<or> task_ok t'" if "t' \<in> set (tasks ?s')" for t'
    proof -
      from that have "t' \<in> set ((tasks s)[k := Queueing m l])" by simp
      then have "t' \<in> set (tasks s) \<or> t' = Queueing m l" by (rule tasks_replaced)
      then show ?thesis by auto
    qed
    show "wl_attempts (?g r) \<le> 5 \<and> (wl_status (?g r) = ''failed'' \<longrightarrow> wl_attempts (?g r) = 5)
        \<and> (?lid \<in> set (active ?s') \<longrightarrow> wl_attempts (?g r) \<le> 4)" for r
      by simp
  qed
  then show ?thesis by (simp only: st)
qed

lemma invariant_merchants:
  assumes inv: "delivery_invariant s"
    and q: "webhookQueue w' = webhookQueue (store s)"
    and l: "webhook_logs w' = webhook_logs (store s)"
  shows "delivery_invariant (s\<lparr>store := w'\<rparr>)"
proof (rule invariant_same_logs [OF inv])
  show "webhook_logs (store (s\<lparr>store := w'\<rparr>)) = webhook_logs (store s)"
    by (simp add: l)
  have "claims (s\<lparr>store := w'\<rparr>) = claims s"
    by (simp add: claims_def q)
  then show "mset (claims (s\<lparr>store := w'\<rparr>)) \<subseteq># mset (claims s)"
    by simp
  have "active (s\<lparr>store := w'\<rparr>) = active s"
    by (simp add: active_def q)
  then show "set (active (s\<lparr>store := w'\<rparr>)) \<subseteq> set (active s)"
    by simp
  show "t \<in> set (tasks s) \<or> task_ok t" if "t \<in> set (tasks (s\<lparr>store := w'\<rparr>))" for t
    using that by simp
qed

lemma invariant_step:
  assumes "delivery_invariant s" "retry_allowed e s"
  shows "delivery_invariant (step cfg e s)"
proof (cases e)
  case (Fanout now_ms merchantId ev data)
  then show ?thesis using assms(1) by (simp only: invariant_Fanout)
next
  case (Take i)
  then show ?thesis using assms(1) by (simp only: invariant_Take)
next
  case (ReadMerchant k)
  then show ?thesis using assms(1) by (simp only: invariant_ReadMerchant)
next
  case (ResolveLog k now new_id)
  then show ?thesis using assms(1) by (simp only: invariant_ResolveLog)
next
  case (Settle k outcome retry_ms)
  then show ?thesis using assms(1) by (simp only: invariant_Settle)
next
  case (AddJob k)
  then show ?thesis using assms(1) by (simp only: invariant_AddJob)
next
  case (RetryLookup m webhookId)
  then show ?thesis using assms by (simp only: invariant_RetryLookup)
next
  case (RetryReset k db_now)
  then show ?thesis using assms(1) by (simp only: invariant_RetryReset)
next
  case (RetryEnqueue k)
  then show ?thesis using assms(1) by (simp only: invariant_RetryEnqueue)
next
  case (SetWebhookUrl m webhook_url)
  have "delivery_invariant (s\<lparr>store := snd (updateWebhookUrl m webhook_url (store s))\<rparr>)"
    by (rule invariant_merchants [OF assms(1)]) (simp_all add: updateWebhookUrl_def)
  then show ?thesis by (simp add: step_def SetWebhookUrl)
next
  case (RegenerateSecret m newSecret)
  have "delivery_invariant (s\<lparr>store := snd (regenerateSecret m newSecret (store s))\<rparr>)"
    by (rule invariant_merchants [OF assms(1)]) (simp_all add: regenerateSecret_def)
  then show ?thesis by (simp add: step_def RegenerateSecret)
qed

lemma invariant_run:
  "delivery_invariant s \<Longrightarrow> guarded cfg es s \<Longrightarrow> delivery_invariant (run cfg es s)"
  by (induction es arbitrary: s) (simp_all add: invariant_step)

end
